theory Spec2Isabelle
  imports Complex_Main
begin

section \<open>Data model of the savings-and-lending ledger\<close>

text \<open>
  The backend keeps its state in relational tables and every handler runs inside one
  database transaction. The model keeps one record of tables; a handler is a function from
  the state before the transaction to either an error (the handler rolled back, the stored
  state stays what it was) or the committed state together with the JSON response.

  Amounts are exact decimal numbers (type \<open>rat\<close>): the values the DECIMAL columns hold.
  The binary rounding error of JavaScript doubles is not part of the model;
  \<open>+(x).toFixed(2)\<close> is rounding to the nearest cent, ties away from zero.
  Dates (\<open>'YYYY-MM-DD'\<close> strings in the source) are day numbers, instants are milliseconds
  since the epoch, so that the string comparison of two dates is the comparison of their
  day numbers and \<open>dateAddDays\<close> is addition.
\<close>

datatype pool_type = MAIN | VALIDITY

datatype borrowing_status = OPEN | PAID

datatype payment_type = UNIT | VALIDITY_PAYMENT | FINE | DEBT_PAYMENT

datatype transaction_type =
    T_BORROW | T_REPAYMENT | T_PENALTY | T_SAVING | T_FINE
  | T_GROUP_ADJUST | T_ADMIN_DELETE_MEMBER | T_ADMIN_RESET

text \<open>The JSON payload of a transaction-log row, one constructor per place that writes one.\<close>

datatype details =
    D_borrow pool_type rat rat nat bool
  | D_repay nat rat
  | D_full_pay nat
  | D_penalty nat int
  | D_saving int int rat
  | D_retro int int rat rat rat
  | D_fine int
  | D_member_created
  | D_deleted nat
  | D_reset

datatype error =
    INVALID_POOL_TYPE
  | INVALID_AMOUNT
  | NO_PERSONAL_BALANCE
  | GROUP_POOL_NOT_INITIALIZED
  | BAD_CREDENTIAL
  | INSUFFICIENT_SAVED_COUNT nat
  | OPEN_DEBT_EXISTS
  | LIMIT_EXCEEDED rat
  | INSUFFICIENT_GROUP_FUNDS rat
  | NOT_FOUND
  | NOT_OWNER
  | NOT_OPEN
  | OVERPAYMENT rat
  | INVALID_UNITS
  | DAILY_CAP_EXCEEDED
  | DATE_REQUIRED
  | DATE_NOT_PAST
  | NO_CHANGE_REQUESTED
  | UNITS_CAP_EXCEEDED
  | NAME_REQUIRED
  | MISSING_ID

record personal_balance_row =
  main_savings_balance :: rat
  validity_savings_balance :: rat

record borrowing_row =
  b_id :: nat
  b_person_id :: nat
  b_pool_type :: pool_type
  b_principal :: rat
  b_initial_profit_amount :: rat
  b_outstanding_amount :: rat
  b_status :: borrowing_status
  b_due_date :: int
  b_last_payment_at :: "int option"
  b_last_penalty_applied_at :: "int option"

record payment_row =
  pay_person_id :: nat
  pay_type :: payment_type
  pay_amount :: rat
  pay_effective_date :: "int option"
  pay_applied_to_borrowing_id :: "nat option"

record daily_summary_row =
  validity_paid :: bool
  units_count :: int
  fine_amount :: rat

record transaction_log_row =
  tl_person_id :: "nat option"
  tl_transaction_type :: transaction_type
  tl_details :: details
  tl_amount :: rat
  tl_resulting_person_main_balance :: "rat option"
  tl_resulting_person_validity_balance :: "rat option"
  tl_resulting_group_main_balance :: "rat option"
  tl_resulting_group_validity_balance :: "rat option"

text \<open>
  The tables. \<open>personal_balance\<close> has one row per person and \<open>group_pool\<close> one row per pool
  type, so both are maps; \<open>daily_summary\<close> is read and written by (person, date) only and a
  row is inserted only when the lookup found none, so it is a map too. \<open>borrowing\<close>,
  \<open>payment\<close> and \<open>transaction_log\<close> are lists in insertion order, and a \<open>SELECT\<close> returns
  the matching rows in that order. The two counters are the AUTO\_INCREMENT values.
\<close>

record state =
  person :: "(nat \<times> string) list"
  personal_balance :: "nat \<rightharpoonup> personal_balance_row"
  group_pool :: "pool_type \<rightharpoonup> rat"
  borrowing :: "borrowing_row list"
  payment :: "payment_row list"
  daily_summary :: "(nat \<times> int) \<rightharpoonup> daily_summary_row"
  transaction_log :: "transaction_log_row list"
  next_person_id :: nat
  next_borrowing_id :: nat

text \<open>
  What the handlers read from the process environment: the three prices of
  savingsController (defaults 500, 100, 500), the admin password, and the offset of the
  server's local time zone, which \<open>new Date(s + 'T00:00:00')\<close> applies.
\<close>

record config =
  UNIT_PRICE :: rat
  VALIDITY_FEE :: rat
  FINE_AMOUNT :: rat
  env_ADMIN_PASSWORD :: "string option"
  tz_offset_ms :: int

section \<open>Helpers\<close>

text \<open>\<open>+(x).toFixed(2)\<close>: the nearest multiple of 0.01, the larger in magnitude on a tie.\<close>

definition round2 :: "rat \<Rightarrow> rat" where
  "round2 x = (if x < 0 then - (of_int \<lfloor>(- x) * 100 + 1 / 2\<rfloor> / 100)
               else of_int \<lfloor>x * 100 + 1 / 2\<rfloor> / 100)"

definition BORROW_INTEREST_PCT :: rat where
  "BORROW_INTEREST_PCT = 1 / 10"

definition MAIN_PERIOD_DAYS :: int where
  "MAIN_PERIOD_DAYS = 30"

definition VALIDITY_PERIOD_DAYS :: int where
  "VALIDITY_PERIOD_DAYS = 7"

definition msPerDay :: int where
  "msPerDay = 24 * 3600 * 1000"

definition dateAddDays :: "int \<Rightarrow> int \<Rightarrow> int" where
  "dateAddDays dateStr days = dateStr + days"

text \<open>\<open>['MAIN', 'VALIDITY'].includes(poolType)\<close> on the string of the request body.\<close>

definition parse_pool_type :: "string \<Rightarrow> pool_type option" where
  "parse_pool_type p =
     (if p = ''MAIN'' then Some MAIN else if p = ''VALIDITY'' then Some VALIDITY else None)"

text \<open>
  \<open>!adminPassword || adminPassword !== ADMIN_PW\<close> with \<open>ADMIN_PW = process.env.ADMIN_PASSWORD || dflt\<close>:
  a missing or empty password is refused whatever the environment holds.
\<close>

definition env_or :: "string option \<Rightarrow> string \<Rightarrow> string" where
  "env_or v dflt = (case v of None \<Rightarrow> dflt | Some x \<Rightarrow> if x = [] then dflt else x)"

definition password_ok :: "string \<Rightarrow> string option \<Rightarrow> bool" where
  "password_ok admin_pw given =
     (case given of None \<Rightarrow> False | Some p \<Rightarrow> p \<noteq> [] \<and> p = admin_pw)"

text \<open>\<open>UPDATE group_pool SET balance = balance + ? WHERE pool_type = ?\<close>: no row, no change.\<close>

definition credit_pool :: "pool_type \<Rightarrow> rat \<Rightarrow> state \<Rightarrow> state" where
  "credit_pool pt x s =
     (case group_pool s pt of
        None \<Rightarrow> s
      | Some bal \<Rightarrow> s\<lparr>group_pool := (group_pool s)(pt \<mapsto> bal + x)\<rparr>)"

text \<open>\<open>UPDATE borrowing SET ... WHERE id = ?\<close>.\<close>

definition update_borrowing ::
  "nat \<Rightarrow> (borrowing_row \<Rightarrow> borrowing_row) \<Rightarrow> borrowing_row list \<Rightarrow> borrowing_row list" where
  "update_borrowing i f bs = map (\<lambda>b. if b_id b = i then f b else b) bs"

text \<open>The count of the person's rows of type UNIT in \<open>payment\<close>.\<close>

definition savedCount :: "state \<Rightarrow> nat \<Rightarrow> nat" where
  "savedCount s personId =
     length (filter (\<lambda>p. pay_person_id p = personId \<and> pay_type p = UNIT) (payment s))"

text \<open>\<open>SELECT ... FROM borrowing WHERE person_id = ? AND pool_type = ? AND status = "OPEN"\<close>.\<close>

definition open_borrowings :: "state \<Rightarrow> nat \<Rightarrow> pool_type \<Rightarrow> borrowing_row list" where
  "open_borrowings s personId poolType =
     filter (\<lambda>b. b_person_id b = personId \<and> b_status b = OPEN \<and> b_pool_type b = poolType)
       (borrowing s)"

text \<open>
  Modelled from the spec: the table schema is not under src/, and the \<open>INSERT\<close> of
  \<open>borrow\<close> names no status column; the spec has a borrow operation create the Borrowing
  with status OPEN, so that is the column default.
\<close>

definition default_status :: borrowing_status where
  "default_status = OPEN"

section \<open>borrowingController\<close>

record borrow_response =
  r_borrowingId :: nat
  r_outstanding :: rat
  r_dueDate :: int
  r_adminOverride :: bool

text \<open>
  \<open>borrow\<close>: \<open>today\<close> is the server's date at the call. The checks come in the order of the
  source; each failing check rolls back and returns. \<open>amt\<close> is the parsed amount; a body
  whose amount does not parse gives \<open>NaN\<close>, which \<open>!amt\<close> refuses like an amount that is
  not positive.
\<close>

definition borrow ::
  "config \<Rightarrow> int \<Rightarrow> state \<Rightarrow> nat \<Rightarrow> string \<Rightarrow> rat \<Rightarrow> bool \<Rightarrow> string option
     \<Rightarrow> error + state \<times> borrow_response" where
  "borrow cfg today s personId poolTypeS amt adminOverride adminPassword =
     (case parse_pool_type poolTypeS of
        None \<Rightarrow> Inl INVALID_POOL_TYPE
      | Some poolType \<Rightarrow>
     if amt \<le> 0 then Inl INVALID_AMOUNT else
     (case personal_balance s personId of
        None \<Rightarrow> Inl NO_PERSONAL_BALANCE
      | Some personal \<Rightarrow>
     (case group_pool s poolType of
        None \<Rightarrow> Inl GROUP_POOL_NOT_INITIALIZED
      | Some groupBalance \<Rightarrow>
     if adminOverride \<and> \<not> password_ok (env_or (env_ADMIN_PASSWORD cfg) []) adminPassword
     then Inl BAD_CREDENTIAL else
     let isAdminOverride = adminOverride in
     if \<not> isAdminOverride \<and> savedCount s personId < 3
     then Inl (INSUFFICIENT_SAVED_COUNT (savedCount s personId)) else
     if \<not> isAdminOverride \<and> length (open_borrowings s personId poolType) > 0
     then Inl OPEN_DEBT_EXISTS else
     let personPoolBalance =
           (if poolType = MAIN then main_savings_balance personal
            else validity_savings_balance personal);
         allowedLimit = round2 (personPoolBalance * (130 / 100))
     in
     if \<not> isAdminOverride \<and> amt > allowedLimit then Inl (LIMIT_EXCEEDED allowedLimit) else
     if amt > groupBalance then Inl (INSUFFICIENT_GROUP_FUNDS groupBalance) else
     let profit = round2 (amt * BORROW_INTEREST_PCT);
         outstanding = round2 (amt + profit);
         periodDays = (if poolType = MAIN then MAIN_PERIOD_DAYS else VALIDITY_PERIOD_DAYS);
         dueDate = dateAddDays today periodDays;
         insertId = next_borrowing_id s;
         row = \<lparr>b_id = insertId, b_person_id = personId, b_pool_type = poolType,
                b_principal = amt, b_initial_profit_amount = profit,
                b_outstanding_amount = outstanding, b_status = default_status,
                b_due_date = dueDate, b_last_payment_at = None,
                b_last_penalty_applied_at = None\<rparr>;
         resultGroupBalance = groupBalance - amt;
         logrow = \<lparr>tl_person_id = Some personId, tl_transaction_type = T_BORROW,
                   tl_details = D_borrow poolType amt profit insertId isAdminOverride,
                   tl_amount = amt,
                   tl_resulting_person_main_balance = None,
                   tl_resulting_person_validity_balance = None,
                   tl_resulting_group_main_balance =
                     (if poolType = MAIN then Some resultGroupBalance else None),
                   tl_resulting_group_validity_balance =
                     (if poolType = VALIDITY then Some resultGroupBalance else None)\<rparr>
     in Inr (s\<lparr>borrowing := borrowing s @ [row],
               next_borrowing_id := Suc insertId,
               group_pool := (group_pool s)(poolType \<mapsto> resultGroupBalance),
               transaction_log := transaction_log s @ [logrow]\<rparr>,
             \<lparr>r_borrowingId = insertId, r_outstanding = outstanding, r_dueDate = dueDate,
              r_adminOverride = isAdminOverride\<rparr>))))"

record repay_response =
  r_newOutstanding :: rat
  r_status :: borrowing_status

text \<open>
  \<open>repay\<close>: \<open>now\<close> is the database clock (\<open>NOW()\<close>) at the call.
  \<open>borrowRow\<close> is \<open>borrowRows[0]\<close>, the first row with the requested id
  (\<open>find\<close> returns the first match of a list, \<open>None\<close> for \<open>undefined\<close>).
\<close>

definition repay ::
  "int \<Rightarrow> state \<Rightarrow> nat \<Rightarrow> nat \<Rightarrow> rat \<Rightarrow> error + state \<times> repay_response" where
  "repay now s personId borrowingId amt =
     (if amt \<le> 0 then Inl INVALID_AMOUNT else
      (case find (\<lambda>b. b_id b = borrowingId) (borrowing s) of
         None \<Rightarrow> Inl NOT_FOUND
       | Some borrowRow \<Rightarrow>
      if b_person_id borrowRow \<noteq> personId then Inl NOT_OWNER else
      if b_status borrowRow \<noteq> OPEN then Inl NOT_OPEN else
      let outstanding = b_outstanding_amount borrowRow in
      if amt > outstanding then Inl (OVERPAYMENT outstanding) else
      let newOutstanding = round2 (outstanding - amt);
          newStatus = (if newOutstanding = 0 then PAID else OPEN);
          s1 = s\<lparr>borrowing :=
                 update_borrowing borrowingId
                   (\<lambda>b. b\<lparr>b_outstanding_amount := newOutstanding, b_status := newStatus,
                           b_last_payment_at := Some now\<rparr>)
                   (borrowing s)\<rparr>;
          s2 = credit_pool (b_pool_type borrowRow) amt s1;
          s3 = s2\<lparr>payment := payment s2 @
                 [\<lparr>pay_person_id = personId, pay_type = DEBT_PAYMENT, pay_amount = amt,
                   pay_effective_date = None,
                   pay_applied_to_borrowing_id = Some borrowingId\<rparr>]\<rparr>;
          gpBalance = group_pool s3 (b_pool_type borrowRow);
          logrow = \<lparr>tl_person_id = Some personId, tl_transaction_type = T_REPAYMENT,
                    tl_details = D_repay borrowingId amt, tl_amount = amt,
                    tl_resulting_person_main_balance = None,
                    tl_resulting_person_validity_balance = None,
                    tl_resulting_group_main_balance =
                      (if b_pool_type borrowRow = MAIN then gpBalance else None),
                    tl_resulting_group_validity_balance =
                      (if b_pool_type borrowRow = VALIDITY then gpBalance else None)\<rparr>
      in Inr (s3\<lparr>transaction_log := transaction_log s3 @ [logrow]\<rparr>,
              \<lparr>r_newOutstanding = newOutstanding, r_status = newStatus\<rparr>)))"

record payFull_response =
  r_paid_borrowingId :: nat
  r_paidAmount :: rat

text \<open>\<open>payFull\<close>: \<open>rows[0]\<close> is the first OPEN borrowing of the person in the pool.\<close>

definition payFull ::
  "int \<Rightarrow> state \<Rightarrow> nat \<Rightarrow> string \<Rightarrow> error + state \<times> payFull_response" where
  "payFull now s personId poolTypeS =
     (case parse_pool_type poolTypeS of
        None \<Rightarrow> Inl INVALID_POOL_TYPE
      | Some poolType \<Rightarrow>
     (case find (\<lambda>b. b_person_id b = personId \<and> b_pool_type b = poolType \<and> b_status b = OPEN)
             (borrowing s) of
        None \<Rightarrow> Inl NOT_FOUND
      | Some b \<Rightarrow>
     let outstanding = b_outstanding_amount b;
         s1 = s\<lparr>borrowing :=
                update_borrowing (b_id b)
                  (\<lambda>r. r\<lparr>b_outstanding_amount := 0, b_status := PAID,
                          b_last_payment_at := Some now\<rparr>)
                  (borrowing s)\<rparr>;
         s2 = credit_pool poolType outstanding s1;
         s3 = s2\<lparr>payment := payment s2 @
                [\<lparr>pay_person_id = personId, pay_type = DEBT_PAYMENT, pay_amount = outstanding,
                  pay_effective_date = None,
                  pay_applied_to_borrowing_id = Some (b_id b)\<rparr>]\<rparr>;
         gpBalance = group_pool s3 poolType;
         logrow = \<lparr>tl_person_id = Some personId, tl_transaction_type = T_REPAYMENT,
                   tl_details = D_full_pay (b_id b), tl_amount = outstanding,
                   tl_resulting_person_main_balance = None,
                   tl_resulting_person_validity_balance = None,
                   tl_resulting_group_main_balance =
                     (if poolType = MAIN then gpBalance else None),
                   tl_resulting_group_validity_balance =
                     (if poolType = VALIDITY then gpBalance else None)\<rparr>
     in Inr (s3\<lparr>transaction_log := transaction_log s3 @ [logrow]\<rparr>,
             \<lparr>r_paid_borrowingId = b_id b, r_paidAmount = outstanding\<rparr>)))"

section \<open>The two penalty sweeps\<close>

text \<open>
  The repository has two functions named \<open>runPenalties\<close>. The first one (in the controller
  that exports only \<open>getGroupPools\<close> and \<open>runPenalties\<close>) is called
  \<open>runPenalties_standalone\<close> here; the second one is adminController's, the one the route
  \<open>POST /admin/penalties/run\<close> is wired to, and keeps the name \<open>runPenalties\<close>.
  Both read \<open>new Date()\<close> for every row; the sweep is given one instant \<open>now\<close>, which is
  also what it stores in \<open>last_penalty_applied_at\<close>.

  For one row each function either skips (\<open>continue\<close>, here \<open>None\<close>) or computes the
  number of periods and the new outstanding amount.
\<close>

definition penalty_standalone :: "int \<Rightarrow> borrowing_row \<Rightarrow> (int \<times> rat) option" where
  "penalty_standalone now b =
     (let due = b_due_date b * msPerDay in
      if now \<le> due then None else
      let periodDays = (if b_pool_type b = MAIN then 30 else 7);
          lastApplied = (case b_last_penalty_applied_at b of None \<Rightarrow> due | Some t \<Rightarrow> t);
          daysSince = (now - lastApplied) div msPerDay;
          fullPeriods = daysSince div periodDays
      in
      if fullPeriods \<le> 0 then None else
      let origOutstanding = b_outstanding_amount b;
          factor = (110 / 100) ^ nat fullPeriods;
          newOutstanding = round2 (origOutstanding * factor)
      in Some (fullPeriods, newOutstanding))"

definition PENALTY_PCT :: rat where
  "PENALTY_PCT = 10 / 100"

text \<open>
  The inner loop of adminController's sweep:
  \<open>for (i = 0; i < periods; i++) newOutstanding = +(newOutstanding * (1 + PENALTY_PCT)).toFixed(2)\<close>.
\<close>

fun compound_loop :: "nat \<Rightarrow> rat \<Rightarrow> rat" where
  "compound_loop 0 newOutstanding = newOutstanding"
| "compound_loop (Suc n) newOutstanding =
     compound_loop n (round2 (newOutstanding * (1 + PENALTY_PCT)))"

text \<open>
  adminController parses the due date without the \<open>Z\<close>, that is at local midnight, and
  uses one period length for every pool.
\<close>

definition penalty_admin :: "config \<Rightarrow> int \<Rightarrow> borrowing_row \<Rightarrow> (int \<times> rat) option" where
  "penalty_admin cfg now b =
     (let due = b_due_date b * msPerDay - tz_offset_ms cfg in
      if now \<le> due then None else
      let periodDays = 30;
          lastApplied = (case b_last_penalty_applied_at b of None \<Rightarrow> due | Some t \<Rightarrow> t);
          elapsedDays = (now - lastApplied) div msPerDay;
          periods = elapsedDays div periodDays
      in
      if periods \<le> 0 then None else
      let originalOutstanding = b_outstanding_amount b;
          newOutstanding = compound_loop (nat periods) originalOutstanding
      in Some (periods, newOutstanding))"

text \<open>The body of the loop over the OPEN rows: the \<open>UPDATE\<close> and the PENALTY log row.\<close>

definition write_penalty :: "int \<Rightarrow> borrowing_row \<Rightarrow> (int \<times> rat) option \<Rightarrow> state \<Rightarrow> state" where
  "write_penalty now b res s =
     (case res of
        None \<Rightarrow> s
      | Some (periods, newOutstanding) \<Rightarrow>
          s\<lparr>borrowing :=
              update_borrowing (b_id b)
                (\<lambda>r. r\<lparr>b_outstanding_amount := newOutstanding,
                        b_last_penalty_applied_at := Some now\<rparr>)
                (borrowing s),
            transaction_log := transaction_log s @
              [\<lparr>tl_person_id = Some (b_person_id b), tl_transaction_type = T_PENALTY,
                tl_details = D_penalty (b_id b) periods,
                tl_amount = round2 (newOutstanding - b_outstanding_amount b),
                tl_resulting_person_main_balance = None,
                tl_resulting_person_validity_balance = None,
                tl_resulting_group_main_balance = None,
                tl_resulting_group_validity_balance = None\<rparr>]\<rparr>)"

definition runPenalties_standalone :: "int \<Rightarrow> state \<Rightarrow> state" where
  "runPenalties_standalone now s =
     fold (\<lambda>b. write_penalty now b (penalty_standalone now b))
       (filter (\<lambda>b. b_status b = OPEN) (borrowing s)) s"

definition runPenalties :: "config \<Rightarrow> int \<Rightarrow> state \<Rightarrow> state" where
  "runPenalties cfg now s =
     fold (\<lambda>b. write_penalty now b (penalty_admin cfg now b))
       (filter (\<lambda>b. b_status b = OPEN) (borrowing s)) s"

section \<open>savingsController\<close>

text \<open>
  \<open>INSERT INTO personal_balance ... VALUES (?, 0.00, 0.00)\<close> when the locked lookup found
  no row.
\<close>

definition ensure_personal_balance :: "nat \<Rightarrow> state \<Rightarrow> state" where
  "ensure_personal_balance personId s =
     (case personal_balance s personId of
        None \<Rightarrow>
          s\<lparr>personal_balance := (personal_balance s)(personId \<mapsto>
               \<lparr>main_savings_balance = 0, validity_savings_balance = 0\<rparr>)\<rparr>
      | Some _ \<Rightarrow> s)"

text \<open>
  The three statements that follow every applied validity fee: credit the personal
  validity balance, insert the VALIDITY payment, credit the VALIDITY pool.
\<close>

definition apply_validity :: "nat \<Rightarrow> int \<Rightarrow> rat \<Rightarrow> state \<Rightarrow> state" where
  "apply_validity personId date appliedValidity s =
     (let s1 = (case personal_balance s personId of
                  None \<Rightarrow> s
                | Some r \<Rightarrow>
                    s\<lparr>personal_balance := (personal_balance s)(personId \<mapsto>
                         r\<lparr>validity_savings_balance :=
                              validity_savings_balance r + appliedValidity\<rparr>)\<rparr>);
          s2 = s1\<lparr>payment := payment s1 @
                 [\<lparr>pay_person_id = personId, pay_type = VALIDITY_PAYMENT,
                   pay_amount = appliedValidity, pay_effective_date = Some date,
                   pay_applied_to_borrowing_id = None\<rparr>]\<rparr>
      in credit_pool VALIDITY appliedValidity s2)"

text \<open>
  The three statements that follow every applied unit purchase: credit the personal main
  balance, insert the UNIT payment, credit the MAIN pool.
\<close>

definition apply_units :: "nat \<Rightarrow> int \<Rightarrow> rat \<Rightarrow> state \<Rightarrow> state" where
  "apply_units personId date unitsAmount s =
     (let s1 = (case personal_balance s personId of
                  None \<Rightarrow> s
                | Some r \<Rightarrow>
                    s\<lparr>personal_balance := (personal_balance s)(personId \<mapsto>
                         r\<lparr>main_savings_balance := main_savings_balance r + unitsAmount\<rparr>)\<rparr>);
          s2 = s1\<lparr>payment := payment s1 @
                 [\<lparr>pay_person_id = personId, pay_type = UNIT,
                   pay_amount = unitsAmount, pay_effective_date = Some date,
                   pay_applied_to_borrowing_id = None\<rparr>]\<rparr>
      in credit_pool MAIN unitsAmount s2)"

record applied =
  appliedUnits :: int
  appliedUnitsAmount :: rat
  appliedValidityAmount :: rat
  fineApplied :: rat

record save_response =
  r_applied :: applied
  r_newBalances :: personal_balance_row
  r_groupMain :: rat
  r_groupValidity :: rat

text \<open>
  \<open>applied\<close> is the \<open>applied\<close> object of both responses; \<open>fineApplied\<close> is a field of
  retroactiveFill's only and stays 0 in a save. Units are whole numbers.
\<close>

text \<open>The balances fetched for the log row and the response (0 where a row is missing).\<close>

definition personBal :: "state \<Rightarrow> nat \<Rightarrow> personal_balance_row" where
  "personBal s personId =
     (case personal_balance s personId of
        None \<Rightarrow> \<lparr>main_savings_balance = 0, validity_savings_balance = 0\<rparr>
      | Some r \<Rightarrow> r)"

definition groupBal :: "state \<Rightarrow> pool_type \<Rightarrow> rat" where
  "groupBal s pt = (case group_pool s pt of None \<Rightarrow> 0 | Some bal \<Rightarrow> bal)"

text \<open>
  The end of \<open>saveUnitsAndValidity\<close>, shared by its two branches: the applied amounts, the
  SAVING log row (only if something was applied), the commit and the response.
\<close>

definition save_finish ::
  "config \<Rightarrow> state \<Rightarrow> nat \<Rightarrow> int \<Rightarrow> int \<Rightarrow> rat \<Rightarrow> state \<times> save_response" where
  "save_finish cfg s personId date appliedUnitsN appliedValidity =
     (let pb = personBal s personId;
          groupMain = groupBal s MAIN;
          groupValidity = groupBal s VALIDITY;
          appliedUnitsAmt = round2 (of_int appliedUnitsN * UNIT_PRICE cfg);
          appliedValidityAmt = appliedValidity;
          savedAmount = round2 (appliedUnitsAmt + appliedValidityAmt);
          s' = (if savedAmount > 0
                then s\<lparr>transaction_log := transaction_log s @
                       [\<lparr>tl_person_id = Some personId, tl_transaction_type = T_SAVING,
                         tl_details = D_saving date appliedUnitsN appliedValidityAmt,
                         tl_amount = savedAmount,
                         tl_resulting_person_main_balance = Some (main_savings_balance pb),
                         tl_resulting_person_validity_balance =
                           Some (validity_savings_balance pb),
                         tl_resulting_group_main_balance = Some groupMain,
                         tl_resulting_group_validity_balance = Some groupValidity\<rparr>]\<rparr>
                else s)
      in (s', \<lparr>r_applied = \<lparr>appliedUnits = appliedUnitsN, appliedUnitsAmount = appliedUnitsAmt,
                             appliedValidityAmount = appliedValidityAmt, fineApplied = 0\<rparr>,
               r_newBalances = pb, r_groupMain = groupMain, r_groupValidity = groupValidity\<rparr>))"

text \<open>
  \<open>saveUnitsAndValidity\<close>. In the branch of an existing summary the validity fee is
  written before the cap is checked; the cap failure rolls the transaction back, so the
  function returns the error and none of the intermediate states.
  A new \<open>daily_summary\<close> row gets \<open>fine_amount\<close> 0, the column default.
\<close>

definition saveUnitsAndValidity ::
  "config \<Rightarrow> int \<Rightarrow> state \<Rightarrow> nat \<Rightarrow> int \<Rightarrow> bool \<Rightarrow> int option
     \<Rightarrow> error + state \<times> save_response" where
  "saveUnitsAndValidity cfg today s personId units payValidity effectiveDate =
     (let date = (case effectiveDate of None \<Rightarrow> today | Some d \<Rightarrow> d) in
      if units < 0 \<or> units > 4 then Inl INVALID_UNITS else
      let s0 = ensure_personal_balance personId s in
      (case daily_summary s0 (personId, date) of
         None \<Rightarrow>
           let s1 = s0\<lparr>daily_summary := (daily_summary s0)((personId, date) \<mapsto>
                        \<lparr>validity_paid = payValidity, units_count = units, fine_amount = 0\<rparr>)\<rparr>;
               appliedValidity = (if payValidity then VALIDITY_FEE cfg else 0);
               s2 = (if payValidity then apply_validity personId date appliedValidity s1 else s1);
               appliedUnitsN = (if units > 0 then units else 0);
               s3 = (if units > 0
                     then apply_units personId date (round2 (of_int units * UNIT_PRICE cfg)) s2
                     else s2)
           in Inr (save_finish cfg s3 personId date appliedUnitsN appliedValidity)
       | Some daily \<Rightarrow>
           let appliedValidity =
                 (if payValidity \<and> validity_paid daily then 0
                  else if payValidity \<and> \<not> validity_paid daily then VALIDITY_FEE cfg else 0);
               s1 = (if payValidity \<and> validity_paid daily then s0
                     else if payValidity \<and> \<not> validity_paid daily
                     then apply_validity personId date appliedValidity
                            (s0\<lparr>daily_summary := (daily_summary s0)((personId, date) \<mapsto>
                                  daily\<lparr>validity_paid := True\<rparr>)\<rparr>)
                     else s0);
               newUnits = units_count daily + units
           in
           if newUnits > 4 then Inl DAILY_CAP_EXCEEDED else
           let appliedUnitsN = (if units > 0 then units else 0);
               s2 = (if units > 0
                     then apply_units personId date (round2 (of_int units * UNIT_PRICE cfg))
                            (case daily_summary s1 (personId, date) of
                               None \<Rightarrow> s1
                             | Some d \<Rightarrow>
                                 s1\<lparr>daily_summary := (daily_summary s1)((personId, date) \<mapsto>
                                      d\<lparr>units_count := units_count d + units\<rparr>)\<rparr>)
                     else s1)
           in Inr (save_finish cfg s2 personId date appliedUnitsN appliedValidity)))"

text \<open>
  \<open>retroactiveFill\<close>: \<open>date\<close> is \<open>None\<close> when the body has none.
\<close>

definition retroactiveFill ::
  "config \<Rightarrow> int \<Rightarrow> state \<Rightarrow> nat \<Rightarrow> int option \<Rightarrow> int \<Rightarrow> bool
     \<Rightarrow> error + state \<times> save_response" where
  "retroactiveFill cfg today s personId dateO addUnits payValidityIfMissing =
     (case dateO of
        None \<Rightarrow> Inl DATE_REQUIRED
      | Some date \<Rightarrow>
     if date \<ge> today then Inl DATE_NOT_PAST else
     if addUnits < 0 \<or> addUnits > 4 then Inl INVALID_UNITS else
     if addUnits = 0 \<and> \<not> payValidityIfMissing then Inl NO_CHANGE_REQUESTED else
     let s0 = ensure_personal_balance personId s;
         branch =
           (case daily_summary s0 (personId, date) of
              None \<Rightarrow>
                let fineToCharge = (if addUnits > 0 then FINE_AMOUNT cfg else 0);
                    s1 = s0\<lparr>daily_summary := (daily_summary s0)((personId, date) \<mapsto>
                             \<lparr>validity_paid = payValidityIfMissing, units_count = addUnits,
                              fine_amount = fineToCharge\<rparr>)\<rparr>;
                    appliedValidityAmt = (if payValidityIfMissing then VALIDITY_FEE cfg else 0);
                    s2 = (if payValidityIfMissing
                          then apply_validity personId date appliedValidityAmt s1 else s1);
                    appliedUnitsAmt =
                      (if addUnits > 0 then round2 (of_int addUnits * UNIT_PRICE cfg) else 0);
                    s3 = (if addUnits > 0 then apply_units personId date appliedUnitsAmt s2 else s2)
                in Inr (s3, appliedUnitsAmt, appliedValidityAmt, fineToCharge)
            | Some daily \<Rightarrow>
                let targetUnits = units_count daily + addUnits in
                if targetUnits > 4 then Inl UNITS_CAP_EXCEEDED else
                let fineToCharge = (if addUnits > 0 then FINE_AMOUNT cfg else 0);
                    s1 = s0\<lparr>daily_summary := (daily_summary s0)((personId, date) \<mapsto>
                             daily\<lparr>units_count := units_count daily + addUnits,
                                   fine_amount := fine_amount daily + fineToCharge\<rparr>)\<rparr>;
                    paysValidity = (payValidityIfMissing \<and> \<not> validity_paid daily);
                    appliedValidityAmt = (if paysValidity then VALIDITY_FEE cfg else 0);
                    s2 = (if paysValidity
                          then apply_validity personId date appliedValidityAmt
                                 (case daily_summary s1 (personId, date) of
                                    None \<Rightarrow> s1
                                  | Some d \<Rightarrow>
                                      s1\<lparr>daily_summary := (daily_summary s1)((personId, date) \<mapsto>
                                           d\<lparr>validity_paid := True\<rparr>)\<rparr>)
                          else s1);
                    appliedUnitsAmt =
                      (if addUnits > 0 then round2 (of_int addUnits * UNIT_PRICE cfg) else 0);
                    s3 = (if addUnits > 0 then apply_units personId date appliedUnitsAmt s2 else s2)
                in Inr (s3, appliedUnitsAmt, appliedValidityAmt, fineToCharge))
     in
     (case branch of
        Inl e \<Rightarrow> Inl e
      | Inr (s3, appliedUnitsAmt, appliedValidityAmt, fineToCharge) \<Rightarrow>
     let appliedUnitsN = (if addUnits > 0 then addUnits else 0);
         s4 = (if fineToCharge > 0
               then let s4a = credit_pool MAIN fineToCharge s3;
                        s4b = s4a\<lparr>payment := payment s4a @
                                [\<lparr>pay_person_id = personId, pay_type = FINE,
                                  pay_amount = fineToCharge, pay_effective_date = Some date,
                                  pay_applied_to_borrowing_id = None\<rparr>]\<rparr>
                    in s4b\<lparr>transaction_log := transaction_log s4b @
                             [\<lparr>tl_person_id = Some personId, tl_transaction_type = T_FINE,
                               tl_details = D_fine date, tl_amount = fineToCharge,
                               tl_resulting_person_main_balance = None,
                               tl_resulting_person_validity_balance = None,
                               tl_resulting_group_main_balance = group_pool s4b MAIN,
                               tl_resulting_group_validity_balance = None\<rparr>]\<rparr>
               else s3);
         totalApplied = round2 (appliedUnitsAmt + appliedValidityAmt + fineToCharge);
         pb = personBal s4 personId;
         groupMain = groupBal s4 MAIN;
         groupValidity = groupBal s4 VALIDITY;
         s5 = (if totalApplied > 0
               then s4\<lparr>transaction_log := transaction_log s4 @
                      [\<lparr>tl_person_id = Some personId, tl_transaction_type = T_SAVING,
                        tl_details = D_retro date appliedUnitsN appliedUnitsAmt
                                       appliedValidityAmt fineToCharge,
                        tl_amount = totalApplied,
                        tl_resulting_person_main_balance = Some (main_savings_balance pb),
                        tl_resulting_person_validity_balance =
                          Some (validity_savings_balance pb),
                        tl_resulting_group_main_balance = Some groupMain,
                        tl_resulting_group_validity_balance = Some groupValidity\<rparr>]\<rparr>
               else s4)
     in Inr (s5, \<lparr>r_applied = \<lparr>appliedUnits = appliedUnitsN,
                                appliedUnitsAmount = appliedUnitsAmt,
                                appliedValidityAmount = appliedValidityAmt,
                                fineApplied = fineToCharge\<rparr>,
                  r_newBalances = pb, r_groupMain = groupMain,
                  r_groupValidity = groupValidity\<rparr>)))"

text \<open>\<open>createMember\<close>: the new person gets the next AUTO\_INCREMENT id.\<close>

definition createMember ::
  "config \<Rightarrow> state \<Rightarrow> string \<Rightarrow> string option \<Rightarrow> error + state \<times> nat" where
  "createMember cfg s name adminPassword =
     (if name = [] then Inl NAME_REQUIRED else
      if \<not> password_ok (env_or (env_ADMIN_PASSWORD cfg) []) adminPassword
      then Inl BAD_CREDENTIAL else
      let personId = next_person_id s in
      Inr (s\<lparr>person := person s @ [(personId, name)],
                next_person_id := Suc personId,
                personal_balance := (personal_balance s)(personId \<mapsto>
                  \<lparr>main_savings_balance = 0, validity_savings_balance = 0\<rparr>),
                transaction_log := transaction_log s @
                  [\<lparr>tl_person_id = Some personId, tl_transaction_type = T_GROUP_ADJUST,
                    tl_details = D_member_created, tl_amount = 0,
                    tl_resulting_person_main_balance = None,
                    tl_resulting_person_validity_balance = None,
                    tl_resulting_group_main_balance = None,
                    tl_resulting_group_validity_balance = None\<rparr>]\<rparr>,
           personId))"

section \<open>adminController\<close>

text \<open>
  \<open>deleteMember\<close> and \<open>resetAll\<close> compare with \<open>process.env.ADMIN_PASSWORD || 'admin'\<close>.
  The store is taken not to fail, so every \<open>DELETE\<close> and \<open>TRUNCATE\<close> takes effect;
  \<open>TRUNCATE\<close> restarts the AUTO\_INCREMENT counter.
\<close>

definition deleteMember ::
  "config \<Rightarrow> state \<Rightarrow> nat option \<Rightarrow> string option \<Rightarrow> error + state \<times> unit" where
  "deleteMember cfg s person_idO password =
     (if \<not> password_ok (env_or (env_ADMIN_PASSWORD cfg) ''admin'') password
      then Inl BAD_CREDENTIAL else
      (case person_idO of
         None \<Rightarrow> Inl MISSING_ID
       | Some pid \<Rightarrow>
      if pid = 0 then Inl MISSING_ID else
      (case find (\<lambda>p. fst p = pid) (person s) of
         None \<Rightarrow> Inl NOT_FOUND
       | Some personRow \<Rightarrow>
      Inr (s\<lparr>transaction_log :=
                 filter (\<lambda>l. tl_person_id l \<noteq> Some pid) (transaction_log s) @
                 [\<lparr>tl_person_id = None, tl_transaction_type = T_ADMIN_DELETE_MEMBER,
                   tl_details = D_deleted pid, tl_amount = 0,
                   tl_resulting_person_main_balance = None,
                   tl_resulting_person_validity_balance = None,
                   tl_resulting_group_main_balance = None,
                   tl_resulting_group_validity_balance = None\<rparr>],
               payment := filter (\<lambda>p. pay_person_id p \<noteq> pid) (payment s),
               borrowing := filter (\<lambda>b. b_person_id b \<noteq> pid) (borrowing s),
               daily_summary := (\<lambda>k. if fst k = pid then None else daily_summary s k),
               personal_balance := (personal_balance s)(pid := None),
               person := filter (\<lambda>p. fst p \<noteq> pid) (person s)\<rparr>, ()))))"

definition resetAll :: "config \<Rightarrow> state \<Rightarrow> string option \<Rightarrow> error + state \<times> unit" where
  "resetAll cfg s password =
     (if \<not> password_ok (env_or (env_ADMIN_PASSWORD cfg) ''admin'') password
      then Inl BAD_CREDENTIAL else
      Inr (s\<lparr>transaction_log :=
                 [\<lparr>tl_person_id = None, tl_transaction_type = T_ADMIN_RESET,
                   tl_details = D_reset, tl_amount = 0,
                   tl_resulting_person_main_balance = None,
                   tl_resulting_person_validity_balance = None,
                   tl_resulting_group_main_balance = None,
                   tl_resulting_group_validity_balance = None\<rparr>],
               borrowing := [],
               next_borrowing_id := 1,
               payment := [],
               daily_summary := Map.empty,
               personal_balance :=
                 (\<lambda>k. map_option
                         (\<lambda>r. \<lparr>main_savings_balance = 0, validity_savings_balance = 0\<rparr>)
                         (personal_balance s k)),
               group_pool := (\<lambda>k. map_option (\<lambda>bal. 0) (group_pool s k))\<rparr>, ()))"

section \<open>Requests and the stored state\<close>

text \<open>
  One constructor per mutating route, with the clock reading of the call where the handler
  takes one. \<open>RunPenaltiesStandalone\<close> stands for the first sweep, which no route of
  \<open>api.js\<close> is wired to.
\<close>

datatype request =
    Borrow int nat string rat bool "string option"
  | Repay int nat nat rat
  | PayFull int nat string
  | RunPenalties int
  | RunPenaltiesStandalone int
  | Save int nat int bool "int option"
  | RetroactiveFill int nat "int option" int bool
  | CreateMember string "string option"
  | DeleteMember "nat option" "string option"
  | ResetAll "string option"

text \<open>What the database holds after a handler: the committed state, or the old one after a rollback.\<close>

definition committed :: "state \<Rightarrow> error + state \<times> 'r \<Rightarrow> state" where
  "committed s res = (case res of Inl e \<Rightarrow> s | Inr (s', r) \<Rightarrow> s')"

fun handle :: "config \<Rightarrow> state \<Rightarrow> request \<Rightarrow> state" where
  "handle cfg s (Borrow today personId poolType amt adminOverride adminPassword) =
     committed s (borrow cfg today s personId poolType amt adminOverride adminPassword)"
| "handle cfg s (Repay now personId borrowingId amt) =
     committed s (repay now s personId borrowingId amt)"
| "handle cfg s (PayFull now personId poolType) = committed s (payFull now s personId poolType)"
| "handle cfg s (RunPenalties now) = runPenalties cfg now s"
| "handle cfg s (RunPenaltiesStandalone now) = runPenalties_standalone now s"
| "handle cfg s (Save today personId units payValidity effectiveDate) =
     committed s (saveUnitsAndValidity cfg today s personId units payValidity effectiveDate)"
| "handle cfg s (RetroactiveFill today personId date addUnits payValidityIfMissing) =
     committed s (retroactiveFill cfg today s personId date addUnits payValidityIfMissing)"
| "handle cfg s (CreateMember name adminPassword) =
     committed s (createMember cfg s name adminPassword)"
| "handle cfg s (DeleteMember person_id password) =
     committed s (deleteMember cfg s person_id password)"
| "handle cfg s (ResetAll password) = committed s (resetAll cfg s password)"

text \<open>A sequence of requests, handled one after the other.\<close>

definition run :: "config \<Rightarrow> state \<Rightarrow> request list \<Rightarrow> state" where
  "run cfg s reqs = fold (\<lambda>r st. handle cfg st r) reqs s"

text \<open>A borrow request that asks for the admin override and carries the right password.\<close>

fun valid_override_borrow :: "config \<Rightarrow> request \<Rightarrow> bool" where
  "valid_override_borrow cfg (Borrow today personId poolType amt adminOverride adminPassword) =
     (adminOverride \<and> password_ok (env_or (env_ADMIN_PASSWORD cfg) []) adminPassword)"
| "valid_override_borrow cfg _ = False"

text \<open>
  Modelled from the spec: the schema and its seed data are not under src/; the spec has
  \<open>group_pool\<close> pre-seeded with exactly the MAIN and VALIDITY rows (here with balance 0)
  before any operation runs, and every other table empty.
\<close>

definition init_state :: state where
  "init_state =
     \<lparr>person = [], personal_balance = Map.empty,
      group_pool = [MAIN \<mapsto> 0, VALIDITY \<mapsto> 0],
      borrowing = [], payment = [], daily_summary = Map.empty, transaction_log = [],
      next_person_id = 1, next_borrowing_id = 1\<rparr>"

section \<open>Invariants\<close>

text \<open>The (person, pool) pairs of the OPEN borrowings, one entry per OPEN row.\<close>

definition open_keys :: "borrowing_row list \<Rightarrow> (nat \<times> pool_type) list" where
  "open_keys bs = map (\<lambda>b. (b_person_id b, b_pool_type b)) (filter (\<lambda>b. b_status b = OPEN) bs)"

text \<open>At most one OPEN borrowing per (person, pool).\<close>

definition one_open :: "state \<Rightarrow> bool" where
  "one_open s = distinct (open_keys (borrowing s))"

text \<open>The primary key of \<open>borrowing\<close>: ids are unique and below the AUTO\_INCREMENT counter.\<close>

definition ids_ok :: "state \<Rightarrow> bool" where
  "ids_ok s = (distinct (map b_id (borrowing s)) \<and>
               list_all (\<lambda>b. b_id b < next_borrowing_id s) (borrowing s))"

text \<open>No daily summary holds more than 4 units.\<close>

definition units_capped :: "state \<Rightarrow> bool" where
  "units_capped s = (\<forall>k d. daily_summary s k = Some d \<longrightarrow> units_count d \<le> 4)"

text \<open>The VALIDITY payments recorded for a person and a day.\<close>

definition validity_payments :: "state \<Rightarrow> nat \<Rightarrow> int \<Rightarrow> payment_row list" where
  "validity_payments s personId date =
     filter (\<lambda>p. pay_person_id p = personId \<and> pay_type p = VALIDITY_PAYMENT \<and>
                 pay_effective_date p = Some date) (payment s)"

text \<open>What the daily summary of a person and a day says; no row counts as unpaid and 0 units.\<close>

definition validity_paid_on :: "state \<Rightarrow> nat \<Rightarrow> int \<Rightarrow> bool" where
  "validity_paid_on s personId date =
     (case daily_summary s (personId, date) of None \<Rightarrow> False | Some d \<Rightarrow> validity_paid d)"

definition units_on :: "state \<Rightarrow> nat \<Rightarrow> int \<Rightarrow> int" where
  "units_on s personId date =
     (case daily_summary s (personId, date) of None \<Rightarrow> 0 | Some d \<Rightarrow> units_count d)"

text \<open>The date a save is booked on: \<open>effectiveDate ? effectiveDate : today\<close>.\<close>

definition save_date :: "int \<Rightarrow> int option \<Rightarrow> int" where
  "save_date today effectiveDate = (case effectiveDate of None \<Rightarrow> today | Some d \<Rightarrow> d)"

section \<open>Example data\<close>

definition cfg_example :: config where
  "cfg_example =
     \<lparr>UNIT_PRICE = 500, VALIDITY_FEE = 100, FINE_AMOUNT = 500,
      env_ADMIN_PASSWORD = Some ''secret'', tz_offset_ms = 0\<rparr>"

text \<open>
  A member with 1000.00 of main savings and three UNIT payments, and a MAIN pool of 5000.00.
\<close>

definition borrow_example_state :: state where
  "borrow_example_state =
     init_state\<lparr>
       person := [(1, ''ann'')],
       personal_balance :=
         [1 \<mapsto> \<lparr>main_savings_balance = 1000, validity_savings_balance = 0\<rparr>],
       group_pool := [MAIN \<mapsto> 5000, VALIDITY \<mapsto> 0],
       payment :=
         replicate 3 \<lparr>pay_person_id = 1, pay_type = UNIT, pay_amount = 500,
                       pay_effective_date = Some 1, pay_applied_to_borrowing_id = None\<rparr>,
       next_person_id := 2\<rparr>"

text \<open>The same member after the borrow of 1300.00, and the borrowing row it created.\<close>

definition example_borrowing :: borrowing_row where
  "example_borrowing =
     \<lparr>b_id = 1, b_person_id = 1, b_pool_type = MAIN, b_principal = 1300,
      b_initial_profit_amount = 130, b_outstanding_amount = 1430, b_status = OPEN,
      b_due_date = 130, b_last_payment_at = None, b_last_penalty_applied_at = None\<rparr>"

definition repay_example_state :: state where
  "repay_example_state =
     borrow_example_state\<lparr>group_pool := [MAIN \<mapsto> 3700, VALIDITY \<mapsto> 0],
       borrowing := [example_borrowing], next_borrowing_id := 2\<rparr>"

text \<open>
  A state reached from the initial one in which a member holds two OPEN borrowings in the
  MAIN pool: the member is created, buys four units, and borrows twice with the admin
  override.
\<close>

definition double_open_requests :: "request list" where
  "double_open_requests =
     [CreateMember ''ann'' (Some ''secret''),
      Save 100 1 4 False None,
      Borrow 100 1 ''MAIN'' 300 True (Some ''secret''),
      Borrow 100 1 ''MAIN'' 200 True (Some ''secret'')]"

definition double_open_state :: state where
  "double_open_state = run cfg_example init_state double_open_requests"

text \<open>
  A state reached from the initial one in which a member holds one OPEN borrowing in the
  VALIDITY pool, created with the admin override.
\<close>

definition override_state_before :: state where
  "override_state_before =
     run cfg_example init_state
       [CreateMember ''bob'' (Some ''secret''),
        Save 100 1 2 True None,
        Borrow 100 1 ''VALIDITY'' 50 True (Some ''secret'')]"

text \<open>
  A sequence of requests none of which is a borrow with a valid admin override: a second
  MAIN borrow without override and one with a wrong password (both refused), a partial
  repayment, a penalty sweep, a full payment and a new borrow after it.
\<close>

definition ordinary_requests :: "request list" where
  "ordinary_requests =
     [CreateMember ''ann'' (Some ''secret''),
      Save 15 1 1 True None,
      Save 16 1 1 False None,
      Save 17 1 1 False None,
      Borrow 17 1 ''MAIN'' 300 False None,
      Borrow 18 1 ''MAIN'' 100 False None,
      Borrow 18 1 ''MAIN'' 100 True (Some ''wrong''),
      Borrow 18 1 ''VALIDITY'' 50 False None,
      Repay 1800000000 1 1 100,
      RunPenalties 9000000000,
      PayFull 9000000001 1 ''VALIDITY'',
      Borrow 120 1 ''VALIDITY'' 20 False None]"

text \<open>
  Four requests on one person and day: three units, two more (over the cap), one unit
  filled in on the next day, and one more (over the cap).
\<close>

definition cap_requests :: "request list" where
  "cap_requests =
     [Save 100 1 3 False None,
      Save 100 1 2 False None,
      RetroactiveFill 101 1 (Some 100) 1 False,
      RetroactiveFill 101 1 (Some 100) 1 False]"

section \<open>The penalty rule as the specification states it\<close>

text \<open>
  Stated from the words of the specification, for comparison with the two functions of
  the source: for an OPEN borrowing whose due date is past, \<open>fullPeriods\<close> is the floor of
  the whole days elapsed since the later of \<open>dueDate\<close> and \<open>lastPenaltyAppliedAt\<close>, divided
  by the period length of the pool (30 days for MAIN, 7 days for VALIDITY); with no full
  period the borrowing is skipped; otherwise the new outstanding amount is
  \<open>round2 (old * 1.10 ^ fullPeriods)\<close>, rounded once.
\<close>

definition penalty_spec :: "int \<Rightarrow> borrowing_row \<Rightarrow> (int \<times> rat) option" where
  "penalty_spec now b =
     (let dueDate = b_due_date b * msPerDay in
      if now \<le> dueDate then None else
      let since = (case b_last_penalty_applied_at b of
                     None \<Rightarrow> dueDate
                   | Some lastPenaltyAppliedAt \<Rightarrow> max dueDate lastPenaltyAppliedAt);
          elapsedDays = (now - since) div msPerDay;
          periodLength = (case b_pool_type b of MAIN \<Rightarrow> 30 | VALIDITY \<Rightarrow> 7);
          fullPeriods = elapsedDays div periodLength
      in
      if fullPeriods \<le> 0 then None
      else Some (fullPeriods, round2 (b_outstanding_amount b * (110 / 100) ^ nat fullPeriods)))"

text \<open>
  A state reached from the initial one without any override: the member saves on three
  days, borrows 100.28 from MAIN on day 17 (due on day 47, outstanding 110.31) and 100.00
  from VALIDITY on day 93 (due on day 100, outstanding 110.00).
\<close>

definition penalty_requests :: "request list" where
  "penalty_requests =
     [CreateMember ''ann'' (Some ''secret''),
      Save 15 1 1 True None,
      Save 16 1 1 False None,
      Save 17 1 1 False None,
      Borrow 17 1 ''MAIN'' (10028 / 100) False None,
      Borrow 93 1 ''VALIDITY'' 100 False None]"

definition penalty_example_state :: state where
  "penalty_example_state = run cfg_example init_state penalty_requests"

section \<open>Basic facts\<close>

lemma floor_rat_numeral [simp]: "\<lfloor>numeral a / numeral b :: rat\<rfloor> = numeral a div numeral b"
  using floor_divide_of_int_eq [of "numeral a" "numeral b", where ?'a = rat] by simp

lemma round2_zero [simp]: "round2 0 = 0"
  by (simp add: round2_def floor_eq_iff)

lemma committed_Inl [simp]: "committed s (Inl e) = s"
  by (simp add: committed_def)

lemma committed_Inr [simp]: "committed s (Inr (s', r)) = s'"
  by (simp add: committed_def)

lemma parse_MAIN [simp]: "parse_pool_type ''MAIN'' = Some MAIN"
  by (simp add: parse_pool_type_def)

lemma parse_VALIDITY [simp]: "parse_pool_type ''VALIDITY'' = Some VALIDITY"
  by (simp add: parse_pool_type_def)

section \<open>borrow\<close>

text \<open>What a committed borrow wrote, field by field.\<close>

lemma borrow_InrD:
  assumes "borrow cfg today s personId poolTypeS amt adminOverride adminPassword = Inr (s', r)"
  shows "\<exists>P g. parse_pool_type poolTypeS = Some P \<and> group_pool s P = Some g \<and>
           group_pool s' = (group_pool s)(P \<mapsto> g - amt) \<and>
           personal_balance s' = personal_balance s \<and>
           daily_summary s' = daily_summary s \<and>
           next_borrowing_id s' = Suc (next_borrowing_id s) \<and>
           (\<not> adminOverride \<longrightarrow> open_borrowings s personId P = []) \<and>
           borrowing s' = borrowing s @
             [\<lparr>b_id = next_borrowing_id s, b_person_id = personId, b_pool_type = P,
               b_principal = amt,
               b_initial_profit_amount = round2 (amt * (10 / 100)),
               b_outstanding_amount = round2 (amt + round2 (amt * (10 / 100))),
               b_status = OPEN,
               b_due_date = today + (if P = MAIN then 30 else 7),
               b_last_payment_at = None, b_last_penalty_applied_at = None\<rparr>] \<and>
           r_borrowingId r = next_borrowing_id s \<and>
           r_outstanding r = round2 (amt + round2 (amt * (10 / 100))) \<and>
           r_dueDate r = today + (if P = MAIN then 30 else 7)"
proof -
  from assms obtain P where P: "parse_pool_type poolTypeS = Some P"
    by (cases "parse_pool_type poolTypeS") (simp_all add: borrow_def)
  from assms P obtain pb where pb: "personal_balance s personId = Some pb"
    by (cases "personal_balance s personId") (simp_all add: borrow_def split: if_splits)
  from assms P pb obtain g where g: "group_pool s P = Some g"
    by (cases "group_pool s P") (simp_all add: borrow_def split: if_splits)
  from assms P pb g show ?thesis
    by (clarsimp simp: borrow_def Let_def BORROW_INTEREST_PCT_def default_status_def
          dateAddDays_def MAIN_PERIOD_DAYS_def VALIDITY_PERIOD_DAYS_def
        split: if_splits)
qed





text \<open>
  Claim C7. Whatever the override flag and the password, a borrow request for more than
  the current balance of the target group pool fails and leaves the stored state as it
  was. With a valid admin override, which skips the three eligibility checks, the failure
  is INSUFFICIENT\_GROUP\_FUNDS; without override it is INSUFFICIENT\_GROUP\_FUNDS once
  the eligibility checks, which come first, have passed.
\<close>

theorem borrow_group_funds:
  assumes "parse_pool_type poolTypeS = Some P"
    and "group_pool s P = Some g"
    and "amt > g"
  shows "(\<exists>e. borrow cfg today s personId poolTypeS amt adminOverride adminPassword = Inl e) \<and>
         handle cfg s (Borrow today personId poolTypeS amt adminOverride adminPassword) = s \<and>
         (0 < amt \<and> personal_balance s personId \<noteq> None \<and> adminOverride \<and>
          password_ok (env_or (env_ADMIN_PASSWORD cfg) []) adminPassword \<longrightarrow>
            borrow cfg today s personId poolTypeS amt adminOverride adminPassword =
              Inl (INSUFFICIENT_GROUP_FUNDS g)) \<and>
         (\<forall>pb. 0 < amt \<and> personal_balance s personId = Some pb \<and> \<not> adminOverride \<and>
            3 \<le> savedCount s personId \<and> open_borrowings s personId P = [] \<and>
            amt \<le> round2 ((if P = MAIN then main_savings_balance pb
                            else validity_savings_balance pb) * (130 / 100)) \<longrightarrow>
            borrow cfg today s personId poolTypeS amt adminOverride adminPassword =
              Inl (INSUFFICIENT_GROUP_FUNDS g))"
  using assms
  by (auto simp: borrow_def Let_def split: option.splits if_splits)

theorem borrow_group_funds_witness:
  "borrow cfg_example 100 borrow_example_state 1 ''MAIN'' 6000 True (Some ''secret'') =
     Inl (INSUFFICIENT_GROUP_FUNDS 5000) \<and>
   handle cfg_example borrow_example_state (Borrow 100 1 ''MAIN'' 6000 True (Some ''secret'')) =
     borrow_example_state"
proof -
  have g: "group_pool borrow_example_state MAIN = Some 5000"
    and pb: "personal_balance borrow_example_state 1 \<noteq> None"
    by (simp_all add: borrow_example_state_def init_state_def)
  have pw: "password_ok (env_or (env_ADMIN_PASSWORD cfg_example) []) (Some ''secret'')"
    by (simp add: password_ok_def env_or_def cfg_example_def)
  show ?thesis
    using borrow_group_funds [OF parse_MAIN g, of 6000 cfg_example 100 1 True "Some ''secret''"]
      pb pw
    by simp
qed

section \<open>repay and payFull\<close>

lemma find_split:
  "find Q bs = Some b \<Longrightarrow> \<exists>us vs. bs = us @ b # vs \<and> Q b \<and> list_all (\<lambda>u. \<not> Q u) us"
proof (induction bs)
  case Nil
  then show ?case by simp
next
  case (Cons x xs)
  show ?case
  proof (cases "Q x")
    case True
    with Cons.prems have "x = b" by simp
    with True show ?thesis by (intro exI [of _ "[]"] exI [of _ xs]) simp
  next
    case False
    with Cons.prems have "find Q xs = Some b" by simp
    from Cons.IH [OF this] obtain us vs where
      "xs = us @ b # vs" "Q b" "list_all (\<lambda>u. \<not> Q u) us" by blast
    with False show ?thesis by (intro exI [of _ "x # us"] exI [of _ vs]) simp
  qed
qed

lemma find_filter: "find Q bs = (case filter Q bs of [] \<Rightarrow> None | x # _ \<Rightarrow> Some x)"
  by (induction bs) simp_all

lemma update_borrowing_ids [simp]:
  "(\<And>x. b_id (f x) = b_id x) \<Longrightarrow> map b_id (update_borrowing i f bs) = map b_id bs"
  by (induction bs) (simp_all add: update_borrowing_def)

lemma update_borrowing_distinct:
  assumes "distinct (map b_id (us @ b # vs))"
  shows "update_borrowing (b_id b) f (us @ b # vs) = us @ f b # vs"
proof -
  have "map (\<lambda>x. if b_id x = b_id b then f x else x) us = us"
    using assms by (intro map_idI) (auto simp: image_iff)
  moreover have "map (\<lambda>x. if b_id x = b_id b then f x else x) vs = vs"
    using assms by (intro map_idI) (auto simp: image_iff)
  ultimately show ?thesis by (simp add: update_borrowing_def)
qed

lemma find_update_borrowing:
  assumes "find (\<lambda>x. b_id x = i) bs = Some b" and "\<And>x. b_id (f x) = b_id x"
  shows "find (\<lambda>x. b_id x = i) (update_borrowing i f bs) = Some (f b)"
  using assms(1)
  by (induction bs) (auto simp: update_borrowing_def assms(2) split: if_splits)

lemma credit_pool_fields [simp]:
  "borrowing (credit_pool pt x s) = borrowing s"
  "payment (credit_pool pt x s) = payment s"
  "daily_summary (credit_pool pt x s) = daily_summary s"
  "personal_balance (credit_pool pt x s) = personal_balance s"
  "transaction_log (credit_pool pt x s) = transaction_log s"
  "next_borrowing_id (credit_pool pt x s) = next_borrowing_id s"
  "next_person_id (credit_pool pt x s) = next_person_id s"
  "person (credit_pool pt x s) = person s"
  by (simp_all add: credit_pool_def split: option.splits)

lemma credit_pool_group [simp]:
  "group_pool (credit_pool pt x s) k =
     (if k = pt then map_option (\<lambda>g. g + x) (group_pool s k) else group_pool s k)"
  by (simp add: credit_pool_def split: option.splits)

lemma repay_InrD:
  assumes "repay now s personId borrowingId amt = Inr (s', r)"
  shows "\<exists>b. find (\<lambda>x. b_id x = borrowingId) (borrowing s) = Some b \<and>
           b_person_id b = personId \<and> b_status b = OPEN \<and> 0 < amt \<and>
           amt \<le> b_outstanding_amount b \<and>
           r_newOutstanding r = round2 (b_outstanding_amount b - amt) \<and>
           r_status r = (if round2 (b_outstanding_amount b - amt) = 0 then PAID else OPEN) \<and>
           borrowing s' =
             update_borrowing borrowingId
               (\<lambda>x. x\<lparr>b_outstanding_amount := round2 (b_outstanding_amount b - amt),
                       b_status := (if round2 (b_outstanding_amount b - amt) = 0
                                    then PAID else OPEN),
                       b_last_payment_at := Some now\<rparr>)
               (borrowing s) \<and>
           (\<forall>k. group_pool s' k =
              (if k = b_pool_type b then map_option (\<lambda>g. g + amt) (group_pool s k)
               else group_pool s k)) \<and>
           personal_balance s' = personal_balance s \<and>
           daily_summary s' = daily_summary s \<and>
           next_borrowing_id s' = next_borrowing_id s"
proof -
  from assms have amt: "0 < amt"
    by (simp add: repay_def split: if_splits)
  from assms amt obtain b where b: "find (\<lambda>x. b_id x = borrowingId) (borrowing s) = Some b"
    by (cases "find (\<lambda>x. b_id x = borrowingId) (borrowing s)") (simp_all add: repay_def)
  from assms amt b show ?thesis
    by (clarsimp simp: repay_def Let_def split: if_splits)
qed

text \<open>
  Claim C5. A repay of a positive amount on an OPEN borrowing \<open>b\<close> that belongs to the caller:
  an amount above the outstanding amount fails with OVERPAYMENT, which carries the true
  outstanding amount, and the stored state (borrowing, balances, pools) stays as it was;
  an amount equal to the outstanding amount succeeds, the outstanding amount becomes 0
  and the status PAID; and every successful repay credits the whole amount to the group
  pool of the borrowing's pool type.
\<close>

theorem repay_open_borrowing:
  assumes "find (\<lambda>x. b_id x = borrowingId) (borrowing s) = Some b"
    and "b_person_id b = personId"
    and "b_status b = OPEN"
    and "0 < amt"
  shows "(amt > b_outstanding_amount b \<longrightarrow>
            repay now s personId borrowingId amt = Inl (OVERPAYMENT (b_outstanding_amount b)) \<and>
            handle cfg s (Repay now personId borrowingId amt) = s) \<and>
         (amt = b_outstanding_amount b \<longrightarrow>
            (\<exists>s' r. repay now s personId borrowingId amt = Inr (s', r) \<and>
               r_newOutstanding r = 0 \<and> r_status r = PAID \<and>
               find (\<lambda>x. b_id x = borrowingId) (borrowing s') =
                 Some (b\<lparr>b_outstanding_amount := 0, b_status := PAID,
                         b_last_payment_at := Some now\<rparr>))) \<and>
         (\<forall>s' r g. repay now s personId borrowingId amt = Inr (s', r) \<and>
            group_pool s (b_pool_type b) = Some g \<longrightarrow>
            group_pool s' (b_pool_type b) = Some (g + amt))"
proof (intro conjI impI allI)
  assume "amt > b_outstanding_amount b"
  with assms show "repay now s personId borrowingId amt = Inl (OVERPAYMENT (b_outstanding_amount b))"
    by (simp add: repay_def)
  then show "handle cfg s (Repay now personId borrowingId amt) = s"
    by simp
next
  assume eq: "amt = b_outstanding_amount b"
  have "\<exists>s' r. repay now s personId borrowingId amt = Inr (s', r)"
    using assms eq by (simp add: repay_def Let_def)
  then obtain s' r where h: "repay now s personId borrowingId amt = Inr (s', r)"
    by blast
  from repay_InrD [OF h] assms(1) eq
  have "r_newOutstanding r = 0" "r_status r = PAID"
    and bs: "borrowing s' =
      update_borrowing borrowingId
        (\<lambda>x. x\<lparr>b_outstanding_amount := 0, b_status := PAID, b_last_payment_at := Some now\<rparr>)
        (borrowing s)"
    by auto
  moreover from bs find_update_borrowing [OF assms(1)]
  have "find (\<lambda>x. b_id x = borrowingId) (borrowing s') =
          Some (b\<lparr>b_outstanding_amount := 0, b_status := PAID, b_last_payment_at := Some now\<rparr>)"
    by simp
  ultimately show "\<exists>s' r. repay now s personId borrowingId amt = Inr (s', r) \<and>
               r_newOutstanding r = 0 \<and> r_status r = PAID \<and>
               find (\<lambda>x. b_id x = borrowingId) (borrowing s') =
                 Some (b\<lparr>b_outstanding_amount := 0, b_status := PAID,
                         b_last_payment_at := Some now\<rparr>)"
    using h by (intro exI [of _ s'] exI [of _ r] conjI) simp_all
next
  fix s' r g
  assume "repay now s personId borrowingId amt = Inr (s', r) \<and>
            group_pool s (b_pool_type b) = Some g"
  with repay_InrD [of now s personId borrowingId amt s' r] assms(1)
  show "group_pool s' (b_pool_type b) = Some (g + amt)"
    by auto
qed

theorem repay_open_borrowing_witness:
  "repay 7 repay_example_state 1 1 1500 = Inl (OVERPAYMENT 1430) \<and>
   handle cfg_example repay_example_state (Repay 7 1 1 1500) = repay_example_state \<and>
   (\<exists>s' r. repay 7 repay_example_state 1 1 1430 = Inr (s', r) \<and>
      r_newOutstanding r = 0 \<and> r_status r = PAID \<and>
      map_option b_status (find (\<lambda>x. b_id x = 1) (borrowing s')) = Some PAID \<and>
      map_option b_outstanding_amount (find (\<lambda>x. b_id x = 1) (borrowing s')) = Some 0 \<and>
      group_pool s' MAIN = Some 5130)"
proof -
  have f: "find (\<lambda>x. b_id x = 1) (borrowing repay_example_state) = Some example_borrowing"
    and b: "b_person_id example_borrowing = 1" "b_status example_borrowing = OPEN"
      "b_outstanding_amount example_borrowing = 1430" "b_pool_type example_borrowing = MAIN"
    and g: "group_pool repay_example_state MAIN = Some 3700"
    by (simp_all add: repay_example_state_def example_borrowing_def)
  note over = repay_open_borrowing [OF f b(1) b(2), of 1500 7 cfg_example]
  note full = repay_open_borrowing [OF f b(1) b(2), of 1430 7 cfg_example]
  from full b obtain s' r where
    h: "repay 7 repay_example_state 1 1 1430 = Inr (s', r)"
      "r_newOutstanding r = 0" "r_status r = PAID"
      "find (\<lambda>x. b_id x = 1) (borrowing s') =
         Some (example_borrowing\<lparr>b_outstanding_amount := 0, b_status := PAID,
                 b_last_payment_at := Some 7\<rparr>)"
    by auto
  from full h(1) g b have "group_pool s' MAIN = Some 5130"
    by auto
  with h over b show ?thesis
    by (intro conjI exI [of _ s'] exI [of _ r]) simp_all
qed

lemma payFull_InrD:
  assumes "payFull now s personId poolTypeS = Inr (s', r)"
  shows "\<exists>P b. parse_pool_type poolTypeS = Some P \<and>
           find (\<lambda>x. b_person_id x = personId \<and> b_pool_type x = P \<and> b_status x = OPEN)
             (borrowing s) = Some b \<and>
           r_paid_borrowingId r = b_id b \<and> r_paidAmount r = b_outstanding_amount b \<and>
           borrowing s' =
             update_borrowing (b_id b)
               (\<lambda>x. x\<lparr>b_outstanding_amount := 0, b_status := PAID,
                       b_last_payment_at := Some now\<rparr>)
               (borrowing s) \<and>
           (\<forall>k. group_pool s' k =
              (if k = P then map_option (\<lambda>g. g + b_outstanding_amount b) (group_pool s k)
               else group_pool s k)) \<and>
           personal_balance s' = personal_balance s \<and>
           daily_summary s' = daily_summary s \<and>
           next_borrowing_id s' = next_borrowing_id s"
proof -
  from assms obtain P where P: "parse_pool_type poolTypeS = Some P"
    by (cases "parse_pool_type poolTypeS") (simp_all add: payFull_def)
  from assms P obtain b where
    b: "find (\<lambda>x. b_person_id x = personId \<and> b_pool_type x = P \<and> b_status x = OPEN)
          (borrowing s) = Some b"
    by (cases "find (\<lambda>x. b_person_id x = personId \<and> b_pool_type x = P \<and> b_status x = OPEN)
          (borrowing s)") (simp_all add: payFull_def)
  from assms P b show ?thesis
    by (clarsimp simp: payFull_def Let_def)
qed

lemma open_borrowings_find:
  "find (\<lambda>x. b_person_id x = personId \<and> b_pool_type x = P \<and> b_status x = OPEN) (borrowing s) =
     (case open_borrowings s personId P of [] \<Rightarrow> None | b # _ \<Rightarrow> Some b)"
proof -
  have eq: "(\<lambda>x. b_person_id x = personId \<and> b_pool_type x = P \<and> b_status x = OPEN) =
        (\<lambda>x. b_person_id x = personId \<and> b_status x = OPEN \<and> b_pool_type x = P)"
    by auto
  show ?thesis
    by (simp add: open_borrowings_def find_filter eq)
qed

text \<open>
  Claim C10. When a person has several OPEN borrowings in one pool (\<open>b\<close> first, then
  \<open>others\<close>, in the order of the query), \<open>payFull\<close> succeeds and settles exactly \<open>b\<close>: its
  outstanding amount becomes 0 and its status PAID, its former outstanding amount and
  nothing else is credited to the group pool, and the OPEN borrowings of that person and
  pool that remain are exactly \<open>others\<close>, unchanged. The witness starts from a state that
  two borrows with admin override have produced.
\<close>

theorem payFull_settles_first:
  assumes "parse_pool_type poolTypeS = Some P"
    and "distinct (map b_id (borrowing s))"
    and "open_borrowings s personId P = b # others"
  shows "\<exists>s' r. payFull now s personId poolTypeS = Inr (s', r) \<and>
           r_paid_borrowingId r = b_id b \<and> r_paidAmount r = b_outstanding_amount b \<and>
           find (\<lambda>x. b_id x = b_id b) (borrowing s') =
             Some (b\<lparr>b_outstanding_amount := 0, b_status := PAID,
                     b_last_payment_at := Some now\<rparr>) \<and>
           open_borrowings s' personId P = others \<and>
           length (borrowing s') = length (borrowing s) \<and>
           (\<forall>k. group_pool s' k =
              (if k = P then map_option (\<lambda>g. g + b_outstanding_amount b) (group_pool s k)
               else group_pool s k))"
proof -
  let ?Q = "\<lambda>x. b_person_id x = personId \<and> b_status x = OPEN \<and> b_pool_type x = P"
  let ?f = "\<lambda>x. x\<lparr>b_outstanding_amount := 0, b_status := PAID, b_last_payment_at := Some now\<rparr>"
  from assms(3) have fnd:
    "find (\<lambda>x. b_person_id x = personId \<and> b_pool_type x = P \<and> b_status x = OPEN) (borrowing s) = Some b"
    by (simp add: open_borrowings_find)
  have "\<exists>s' r. payFull now s personId poolTypeS = Inr (s', r)"
    using assms(1) fnd by (simp add: payFull_def Let_def)
  then obtain s' r where h: "payFull now s personId poolTypeS = Inr (s', r)"
    by blast
  from payFull_InrD [OF h] assms(1) fnd
  have r: "r_paid_borrowingId r = b_id b" "r_paidAmount r = b_outstanding_amount b"
    and bs: "borrowing s' = update_borrowing (b_id b) ?f (borrowing s)"
    and gp: "\<forall>k. group_pool s' k =
              (if k = P then map_option (\<lambda>g. g + b_outstanding_amount b) (group_pool s k)
               else group_pool s k)"
    by auto
  from assms(3) obtain us vs where
    split: "borrowing s = us @ b # vs" and us: "\<forall>u\<in>set us. \<not> ?Q u"
    and Qb: "?Q b" and others: "others = filter ?Q vs"
    unfolding open_borrowings_def filter_eq_Cons_iff by blast
  from assms(2) split have upd: "borrowing s' = us @ ?f b # vs"
    using update_borrowing_distinct [of us b vs ?f] bs by simp
  from assms(2) split have "\<forall>u\<in>set us. b_id u \<noteq> b_id b"
    by (auto simp: image_iff)
  then have "find (\<lambda>x. b_id x = b_id b) (us @ ?f b # vs) = Some (?f b)"
    by (induction us) simp_all
  with upd have fnd': "find (\<lambda>x. b_id x = b_id b) (borrowing s') = Some (?f b)"
    by simp
  from upd us others have ob: "open_borrowings s' personId P = others"
    by (simp add: open_borrowings_def)
  from upd split have len: "length (borrowing s') = length (borrowing s)"
    by simp
  from h r fnd' ob len gp show ?thesis
    by (intro exI [of _ s'] exI [of _ r] conjI) simp_all
qed

theorem payFull_settles_first_witness:
  "\<exists>s' r. payFull 9 double_open_state 1 ''MAIN'' = Inr (s', r) \<and>
     map b_id (open_borrowings double_open_state 1 MAIN) = [1, 2] \<and>
     r_paid_borrowingId r = 1 \<and> r_paidAmount r = 330 \<and>
     map_option b_status (find (\<lambda>x. b_id x = 1) (borrowing s')) = Some PAID \<and>
     map_option b_outstanding_amount (find (\<lambda>x. b_id x = 1) (borrowing s')) = Some 0 \<and>
     map b_id (open_borrowings s' 1 MAIN) = [2] \<and>
     map b_outstanding_amount (open_borrowings s' 1 MAIN) = [220] \<and>
     group_pool double_open_state MAIN = Some 1500 \<and> group_pool s' MAIN = Some 1830"
proof -
  let ?b1 = "\<lparr>b_id = 1, b_person_id = 1, b_pool_type = MAIN, b_principal = 300,
              b_initial_profit_amount = 30, b_outstanding_amount = 330, b_status = OPEN,
              b_due_date = 130, b_last_payment_at = None, b_last_penalty_applied_at = None\<rparr>"
  let ?b2 = "\<lparr>b_id = 2, b_person_id = 1, b_pool_type = MAIN, b_principal = 200,
              b_initial_profit_amount = 20, b_outstanding_amount = 220, b_status = OPEN,
              b_due_date = 130, b_last_payment_at = None, b_last_penalty_applied_at = None\<rparr>"
  have ob: "open_borrowings double_open_state 1 MAIN = [?b1, ?b2]"
    unfolding double_open_state_def double_open_requests_def by code_simp
  have d: "distinct (map b_id (borrowing double_open_state))"
    unfolding double_open_state_def double_open_requests_def by code_simp
  have g: "group_pool double_open_state MAIN = Some 1500"
    unfolding double_open_state_def double_open_requests_def by code_simp
  from payFull_settles_first [OF parse_MAIN d ob, of 9] obtain s' r where
    h: "payFull 9 double_open_state 1 ''MAIN'' = Inr (s', r)"
      "r_paid_borrowingId r = 1" "r_paidAmount r = 330"
      "find (\<lambda>x. b_id x = 1) (borrowing s') =
         Some (?b1\<lparr>b_outstanding_amount := 0, b_status := PAID, b_last_payment_at := Some 9\<rparr>)"
      "open_borrowings s' 1 MAIN = [?b2]"
      "\<forall>k. group_pool s' k =
         (if k = MAIN then map_option (\<lambda>g. g + 330) (group_pool double_open_state k)
          else group_pool double_open_state k)"
    by auto
  from h(6) g have "group_pool s' MAIN = Some 1830"
    by simp
  with h ob g show ?thesis
    by (intro exI [of _ s'] exI [of _ r] conjI) simp_all
qed

section \<open>save and retroactiveFill\<close>

lemma ensure_personal_balance_fields [simp]:
  "borrowing (ensure_personal_balance p s) = borrowing s"
  "payment (ensure_personal_balance p s) = payment s"
  "daily_summary (ensure_personal_balance p s) = daily_summary s"
  "group_pool (ensure_personal_balance p s) = group_pool s"
  "transaction_log (ensure_personal_balance p s) = transaction_log s"
  "next_borrowing_id (ensure_personal_balance p s) = next_borrowing_id s"
  by (simp_all add: ensure_personal_balance_def split: option.splits)

lemma ensure_personal_balance_personBal [simp]:
  "personBal (ensure_personal_balance p s) q = personBal s q"
  by (simp add: ensure_personal_balance_def personBal_def split: option.splits)

lemma apply_validity_fields [simp]:
  "borrowing (apply_validity p d x s) = borrowing s"
  "daily_summary (apply_validity p d x s) = daily_summary s"
  "transaction_log (apply_validity p d x s) = transaction_log s"
  "next_borrowing_id (apply_validity p d x s) = next_borrowing_id s"
  "group_pool (apply_validity p d x s) k =
     (if k = VALIDITY then map_option (\<lambda>g. g + x) (group_pool s k) else group_pool s k)"
  by (simp_all add: apply_validity_def Let_def split: option.splits)

lemma apply_units_fields [simp]:
  "borrowing (apply_units p d x s) = borrowing s"
  "daily_summary (apply_units p d x s) = daily_summary s"
  "transaction_log (apply_units p d x s) = transaction_log s"
  "next_borrowing_id (apply_units p d x s) = next_borrowing_id s"
  "group_pool (apply_units p d x s) k =
     (if k = MAIN then map_option (\<lambda>g. g + x) (group_pool s k) else group_pool s k)"
  by (simp_all add: apply_units_def Let_def split: option.splits)

lemma save_finish_fields [simp]:
  "borrowing (fst (save_finish cfg s p d n v)) = borrowing s"
  "daily_summary (fst (save_finish cfg s p d n v)) = daily_summary s"
  "group_pool (fst (save_finish cfg s p d n v)) = group_pool s"
  "personal_balance (fst (save_finish cfg s p d n v)) = personal_balance s"
  "next_borrowing_id (fst (save_finish cfg s p d n v)) = next_borrowing_id s"
  "appliedValidityAmount (r_applied (snd (save_finish cfg s p d n v))) = v"
  "appliedUnits (r_applied (snd (save_finish cfg s p d n v))) = n"
  by (simp_all add: save_finish_def Let_def)

lemma ensure_personal_balance_row [simp]:
  "personal_balance (ensure_personal_balance p s) q =
     (if q = p then Some (personBal s p) else personal_balance s q)"
  by (simp add: ensure_personal_balance_def personBal_def split: option.splits)

lemma apply_validity_row [simp]:
  "personal_balance (apply_validity p d x s) q =
     (if q = p
      then map_option (\<lambda>r. r\<lparr>validity_savings_balance := validity_savings_balance r + x\<rparr>)
             (personal_balance s q)
      else personal_balance s q)"
  by (simp add: apply_validity_def Let_def split: option.splits)

lemma apply_units_row [simp]:
  "personal_balance (apply_units p d x s) q =
     (if q = p
      then map_option (\<lambda>r. r\<lparr>main_savings_balance := main_savings_balance r + x\<rparr>)
             (personal_balance s q)
      else personal_balance s q)"
  by (simp add: apply_units_def Let_def split: option.splits)

lemma apply_payment [simp]:
  "payment (apply_validity p d x s) = payment s @
     [\<lparr>pay_person_id = p, pay_type = VALIDITY_PAYMENT, pay_amount = x,
       pay_effective_date = Some d, pay_applied_to_borrowing_id = None\<rparr>]"
  "payment (apply_units p d x s) = payment s @
     [\<lparr>pay_person_id = p, pay_type = UNIT, pay_amount = x,
       pay_effective_date = Some d, pay_applied_to_borrowing_id = None\<rparr>]"
  "payment (fst (save_finish cfg s p d n v)) = payment s"
  by (simp_all add: apply_validity_def apply_units_def save_finish_def Let_def
      split: option.splits)

lemma save_Inr_shape:
  assumes "saveUnitsAndValidity cfg today s personId units payValidity effectiveDate = Inr (s', r)"
  shows "0 \<le> units \<and> units \<le> 4 \<and> borrowing s' = borrowing s \<and>
         next_borrowing_id s' = next_borrowing_id s"
  using assms
  by (auto simp: saveUnitsAndValidity_def Let_def split: option.splits if_splits
      dest!: arg_cong [where f = fst])

lemma save_Inr_daily:
  assumes "saveUnitsAndValidity cfg today s personId units payValidity effectiveDate = Inr (s', r)"
    and "date = save_date today effectiveDate"
  shows "units_on s' personId date = units_on s personId date + units"
    and "units_on s' personId date \<le> 4"
    and "validity_paid_on s' personId date = (validity_paid_on s personId date \<or> payValidity)"
    and "k \<noteq> (personId, date) \<Longrightarrow> daily_summary s' k = daily_summary s k"
    and "daily_summary s' (personId, date) \<noteq> None"
  using assms
  by (auto simp: saveUnitsAndValidity_def Let_def units_on_def validity_paid_on_def save_date_def
      split: option.splits if_splits dest!: arg_cong [where f = fst])

lemma save_Inr_validity:
  assumes "saveUnitsAndValidity cfg today s personId units payValidity effectiveDate = Inr (s', r)"
    and "date = save_date today effectiveDate"
    and "charged = (payValidity \<and> \<not> validity_paid_on s personId date)"
  shows "appliedValidityAmount (r_applied r) = (if charged then VALIDITY_FEE cfg else 0)"
    and "group_pool s' VALIDITY =
           (if charged then map_option (\<lambda>g. g + VALIDITY_FEE cfg) (group_pool s VALIDITY)
            else group_pool s VALIDITY)"
    and "validity_savings_balance (personBal s' personId) =
           validity_savings_balance (personBal s personId) +
           (if charged then VALIDITY_FEE cfg else 0)"
    and "validity_payments s' personId date =
           validity_payments s personId date @
           (if charged
            then [\<lparr>pay_person_id = personId, pay_type = VALIDITY_PAYMENT,
                   pay_amount = VALIDITY_FEE cfg, pay_effective_date = Some date,
                   pay_applied_to_borrowing_id = None\<rparr>]
            else [])"
  using assms
  by (auto simp: saveUnitsAndValidity_def Let_def validity_paid_on_def save_date_def
        personBal_def validity_payments_def
      split: option.splits if_splits
      dest!: arg_cong [where f = "\<lambda>x. (fst x, appliedValidityAmount (r_applied (snd x)))"])

lemma save_Inr_log:
  assumes "saveUnitsAndValidity cfg today s personId units payValidity effectiveDate = Inr (s', r)"
    and "savedAmount =
           round2 (appliedUnitsAmount (r_applied r) + appliedValidityAmount (r_applied r))"
  shows "appliedUnits (r_applied r) = units"
    and "appliedUnitsAmount (r_applied r) = round2 (of_int units * UNIT_PRICE cfg)"
    and "\<not> savedAmount > 0 \<Longrightarrow> transaction_log s' = transaction_log s"
    and "savedAmount > 0 \<Longrightarrow>
           \<exists>row. transaction_log s' = transaction_log s @ [row] \<and>
             tl_transaction_type row = T_SAVING \<and> tl_amount row = savedAmount"
  using assms
  by (auto simp: saveUnitsAndValidity_def Let_def save_finish_def
      split: option.splits if_splits)

lemma retro_Inr_shape:
  assumes "retroactiveFill cfg today s personId dateO addUnits payValidityIfMissing = Inr (s', r)"
  shows "borrowing s' = borrowing s \<and> next_borrowing_id s' = next_borrowing_id s \<and>
         (\<exists>date. dateO = Some date \<and> date < today \<and>
            units_on s' personId date = units_on s personId date + addUnits \<and>
            units_on s' personId date \<le> 4 \<and>
            daily_summary s' (personId, date) \<noteq> None \<and>
            (\<forall>k. k \<noteq> (personId, date) \<longrightarrow> daily_summary s' k = daily_summary s k))"
proof -
  from assms obtain date where d: "dateO = Some date"
    by (cases dateO) (simp_all add: retroactiveFill_def)
  from assms d show ?thesis
    by (auto simp: retroactiveFill_def Let_def units_on_def
        split: option.splits if_splits sum.splits prod.splits)
qed

section \<open>Invariants of the stored state\<close>

lemma update_borrowing_open_keys:
  assumes "\<And>x. b_person_id (f x) = b_person_id x"
    and "\<And>x. b_pool_type (f x) = b_pool_type x"
    and "\<And>x. b_status (f x) = b_status x"
  shows "open_keys (update_borrowing i f bs) = open_keys bs"
  by (induction bs) (simp_all add: open_keys_def update_borrowing_def assms)

lemma write_penalty_fields [simp]:
  "map b_id (borrowing (write_penalty now b res s)) = map b_id (borrowing s)"
  "open_keys (borrowing (write_penalty now b res s)) = open_keys (borrowing s)"
  "next_borrowing_id (write_penalty now b res s) = next_borrowing_id s"
  "daily_summary (write_penalty now b res s) = daily_summary s"
  "group_pool (write_penalty now b res s) = group_pool s"
  "personal_balance (write_penalty now b res s) = personal_balance s"
  by (simp_all add: write_penalty_def update_borrowing_open_keys split: option.splits prod.splits)

lemma fold_write_penalty_fields [simp]:
  "map b_id (borrowing (fold (\<lambda>b. write_penalty now b (pf b)) rows s)) = map b_id (borrowing s)"
  "open_keys (borrowing (fold (\<lambda>b. write_penalty now b (pf b)) rows s)) = open_keys (borrowing s)"
  "next_borrowing_id (fold (\<lambda>b. write_penalty now b (pf b)) rows s) = next_borrowing_id s"
  "daily_summary (fold (\<lambda>b. write_penalty now b (pf b)) rows s) = daily_summary s"
  "group_pool (fold (\<lambda>b. write_penalty now b (pf b)) rows s) = group_pool s"
  "personal_balance (fold (\<lambda>b. write_penalty now b (pf b)) rows s) = personal_balance s"
  by (induction rows arbitrary: s) simp_all

lemma ids_ok_iff:
  "ids_ok s \<longleftrightarrow>
     distinct (map b_id (borrowing s)) \<and> (\<forall>i\<in>set (map b_id (borrowing s)). i < next_borrowing_id s)"
  by (auto simp: ids_ok_def list_all_iff)

lemma ids_ok_cong:
  "map b_id (borrowing s') = map b_id (borrowing s) \<Longrightarrow>
   next_borrowing_id s' = next_borrowing_id s \<Longrightarrow> ids_ok s \<Longrightarrow> ids_ok s'"
  by (simp add: ids_ok_iff)

lemma find_unique_id:
  assumes "distinct (map b_id bs)" and "find (\<lambda>x. b_id x = i) bs = Some b"
    and "x \<in> set bs" and "b_id x = i"
  shows "x = b"
proof -
  from find_split [OF assms(2)] have "b \<in> set bs" "b_id b = i"
    by auto
  moreover from assms(1) have "inj_on b_id (set bs)"
    by (simp add: distinct_map)
  ultimately show ?thesis
    using assms(3,4) by (auto dest: inj_onD)
qed

lemma open_keys_settle:
  assumes "\<And>x. b_person_id (f x) = b_person_id x"
    and "\<And>x. b_pool_type (f x) = b_pool_type x"
    and "list_all (\<lambda>x. b_id x \<noteq> i \<or> b_status x = OPEN) bs"
    and "distinct (open_keys bs)"
  shows "distinct (open_keys (update_borrowing i f bs)) \<and>
         set (open_keys (update_borrowing i f bs)) \<subseteq> set (open_keys bs)"
  using assms(3,4)
proof (induction bs)
  case Nil
  then show ?case by (simp add: open_keys_def update_borrowing_def)
next
  case (Cons x xs)
  from Cons.prems have p1: "list_all (\<lambda>x. b_id x \<noteq> i \<or> b_status x = OPEN) xs"
    by simp
  from Cons.prems have p2: "distinct (open_keys xs)"
    by (simp add: open_keys_def split: if_splits)
  from Cons.IH [OF p1 p2] have IH: "distinct (open_keys (update_borrowing i f xs))"
    "set (open_keys (update_borrowing i f xs)) \<subseteq> set (open_keys xs)"
    by simp_all
  have tl: "update_borrowing i f (x # xs) =
              (if b_id x = i then f x else x) # update_borrowing i f xs"
    by (simp add: update_borrowing_def)
  from Cons.prems IH show ?case
    unfolding tl by (auto simp: open_keys_def assms(1,2))
qed

lemma one_open_repay:
  assumes "ids_ok s" and "one_open s" and "repay now s personId borrowingId amt = Inr (s', r)"
  shows "one_open s'"
proof -
  from repay_InrD [OF assms(3)] obtain b f where
    b: "find (\<lambda>x. b_id x = borrowingId) (borrowing s) = Some b" "b_status b = OPEN"
    and f: "f = (\<lambda>x. x\<lparr>b_outstanding_amount := round2 (b_outstanding_amount b - amt),
                       b_status := (if round2 (b_outstanding_amount b - amt) = 0
                                    then PAID else OPEN),
                       b_last_payment_at := Some now\<rparr>)"
    and bs: "borrowing s' = update_borrowing borrowingId f (borrowing s)"
    by blast
  from assms(1) have d: "distinct (map b_id (borrowing s))"
    by (simp add: ids_ok_def)
  have "list_all (\<lambda>x. b_id x \<noteq> borrowingId \<or> b_status x = OPEN) (borrowing s)"
    using find_unique_id [OF d b(1)] b(2) by (auto simp: list_all_iff)
  from open_keys_settle [OF _ _ this, of f] assms(2) bs show ?thesis
    by (simp add: one_open_def f)
qed

lemma one_open_payFull:
  assumes "ids_ok s" and "one_open s" and "payFull now s personId poolTypeS = Inr (s', r)"
  shows "one_open s'"
proof -
  from payFull_InrD [OF assms(3)] obtain P b f where
    b: "find (\<lambda>x. b_person_id x = personId \<and> b_pool_type x = P \<and> b_status x = OPEN)
          (borrowing s) = Some b"
    and f: "f = (\<lambda>x. x\<lparr>b_outstanding_amount := 0, b_status := PAID,
                       b_last_payment_at := Some now\<rparr>)"
    and bs: "borrowing s' = update_borrowing (b_id b) f (borrowing s)"
    by blast
  from find_split [OF b] have mem: "b \<in> set (borrowing s)" and st: "b_status b = OPEN"
    by auto
  from assms(1) have "inj_on b_id (set (borrowing s))"
    by (simp add: ids_ok_def distinct_map)
  with mem st have "list_all (\<lambda>x. b_id x \<noteq> b_id b \<or> b_status x = OPEN) (borrowing s)"
    by (auto simp: list_all_iff dest: inj_onD)
  from open_keys_settle [OF _ _ this, of f] assms(2) bs show ?thesis
    by (simp add: one_open_def f)
qed

lemma borrow_Inr_row:
  assumes "borrow cfg today s personId poolTypeS amt adminOverride adminPassword = Inr (s', r)"
  shows "\<exists>row P. borrowing s' = borrowing s @ [row] \<and>
           b_id row = next_borrowing_id s \<and> b_person_id row = personId \<and>
           b_pool_type row = P \<and> b_status row = OPEN \<and>
           next_borrowing_id s' = Suc (next_borrowing_id s) \<and>
           (\<not> adminOverride \<longrightarrow> open_borrowings s personId P = [])"
proof -
  from borrow_InrD [OF assms] obtain P where
    "\<not> adminOverride \<longrightarrow> open_borrowings s personId P = []"
    "next_borrowing_id s' = Suc (next_borrowing_id s)"
    "borrowing s' = borrowing s @
             [\<lparr>b_id = next_borrowing_id s, b_person_id = personId, b_pool_type = P,
               b_principal = amt,
               b_initial_profit_amount = round2 (amt * (10 / 100)),
               b_outstanding_amount = round2 (amt + round2 (amt * (10 / 100))),
               b_status = OPEN,
               b_due_date = today + (if P = MAIN then 30 else 7),
               b_last_payment_at = None, b_last_penalty_applied_at = None\<rparr>]"
    by blast
  then show ?thesis
    by (intro exI [of _ P]
          exI [of _ "\<lparr>b_id = next_borrowing_id s, b_person_id = personId, b_pool_type = P,
               b_principal = amt,
               b_initial_profit_amount = round2 (amt * (10 / 100)),
               b_outstanding_amount = round2 (amt + round2 (amt * (10 / 100))),
               b_status = OPEN,
               b_due_date = today + (if P = MAIN then 30 else 7),
               b_last_payment_at = None, b_last_penalty_applied_at = None\<rparr>"]) simp
qed

lemma one_open_borrow:
  assumes "one_open s"
    and "borrow cfg today s personId poolTypeS amt False adminPassword = Inr (s', r)"
  shows "one_open s'"
proof -
  from borrow_Inr_row [OF assms(2)] obtain P row where
    ob: "open_borrowings s personId P = []"
    and row: "b_person_id row = personId" "b_pool_type row = P" "b_status row = OPEN"
    and bs: "borrowing s' = borrowing s @ [row]"
    by auto
  from ob have "(personId, P) \<notin> set (open_keys (borrowing s))"
    by (auto simp: open_borrowings_def open_keys_def filter_empty_conv)
  with assms(1) bs row show ?thesis
    by (simp add: one_open_def open_keys_def)
qed

lemma ids_ok_borrow:
  assumes "ids_ok s"
    and "borrow cfg today s personId poolTypeS amt adminOverride adminPassword = Inr (s', r)"
  shows "ids_ok s'"
proof -
  from borrow_Inr_row [OF assms(2)] obtain row where
    "b_id row = next_borrowing_id s" "borrowing s' = borrowing s @ [row]"
    "next_borrowing_id s' = Suc (next_borrowing_id s)"
    by auto
  with assms(1) show ?thesis
    by (auto simp: ids_ok_iff)
qed

lemma deleteMember_InrD:
  assumes "deleteMember cfg s person_idO password = Inr (s', r)"
  shows "\<exists>pid. borrowing s' = filter (\<lambda>b. b_person_id b \<noteq> pid) (borrowing s) \<and>
           next_borrowing_id s' = next_borrowing_id s \<and>
           (\<forall>k. daily_summary s' k = (if fst k = pid then None else daily_summary s k))"
  using assms
  by (auto simp: deleteMember_def split: if_splits option.splits)

lemma resetAll_InrD:
  assumes "resetAll cfg s password = Inr (s', r)"
  shows "borrowing s' = [] \<and> daily_summary s' = Map.empty"
  using assms
  by (auto simp: resetAll_def split: if_splits)

lemma createMember_InrD:
  assumes "createMember cfg s name adminPassword = Inr (s', r)"
  shows "borrowing s' = borrowing s \<and> next_borrowing_id s' = next_borrowing_id s \<and>
         daily_summary s' = daily_summary s"
  using assms
  by (auto simp: createMember_def Let_def split: if_splits)

lemma open_keys_filter:
  "distinct (open_keys bs) \<Longrightarrow> distinct (open_keys (filter Q bs))"
  by (induction bs) (auto simp: open_keys_def)

lemma handle_ids_ok: "ids_ok s \<Longrightarrow> ids_ok (handle cfg s req)"
proof (cases req)
  case (Borrow today personId poolType amt adminOverride adminPassword)
  assume "ids_ok s"
  then show ?thesis
    unfolding Borrow
    by (cases "borrow cfg today s personId poolType amt adminOverride adminPassword")
      (auto dest: ids_ok_borrow)
next
  case (Repay now personId borrowingId amt)
  assume "ids_ok s"
  then show ?thesis
    unfolding Repay
    by (cases "repay now s personId borrowingId amt")
      (auto dest!: repay_InrD intro: ids_ok_cong)
next
  case (PayFull now personId poolType)
  assume "ids_ok s"
  then show ?thesis
    unfolding PayFull
    by (cases "payFull now s personId poolType")
      (auto dest!: payFull_InrD intro: ids_ok_cong)
next
  case (RunPenalties now)
  assume "ids_ok s"
  then show ?thesis
    unfolding RunPenalties by (auto simp: runPenalties_def intro: ids_ok_cong)
next
  case (RunPenaltiesStandalone now)
  assume "ids_ok s"
  then show ?thesis
    unfolding RunPenaltiesStandalone by (auto simp: runPenalties_standalone_def intro: ids_ok_cong)
next
  case (Save today personId units payValidity effectiveDate)
  assume "ids_ok s"
  then show ?thesis
    unfolding Save
    by (cases "saveUnitsAndValidity cfg today s personId units payValidity effectiveDate")
      (auto dest!: save_Inr_shape intro: ids_ok_cong)
next
  case (RetroactiveFill today personId date addUnits payValidityIfMissing)
  assume "ids_ok s"
  then show ?thesis
    unfolding RetroactiveFill
    by (cases "retroactiveFill cfg today s personId date addUnits payValidityIfMissing")
      (auto dest!: retro_Inr_shape intro: ids_ok_cong)
next
  case (CreateMember name adminPassword)
  assume "ids_ok s"
  then show ?thesis
    unfolding CreateMember
    by (cases "createMember cfg s name adminPassword")
      (auto dest!: createMember_InrD intro: ids_ok_cong)
next
  case (DeleteMember person_id password)
  assume "ids_ok s"
  then show ?thesis
    unfolding DeleteMember
    by (cases "deleteMember cfg s person_id password")
      (auto dest!: deleteMember_InrD simp: ids_ok_iff distinct_map_filter)
next
  case (ResetAll password)
  assume "ids_ok s"
  then show ?thesis
    unfolding ResetAll
    by (cases "resetAll cfg s password")
      (auto dest!: resetAll_InrD simp: ids_ok_iff)
qed

lemma one_open_cong:
  "open_keys (borrowing s') = open_keys (borrowing s) \<Longrightarrow> one_open s \<Longrightarrow> one_open s'"
  by (simp add: one_open_def)

lemma borrow_bad_credential:
  assumes "adminOverride"
    and "\<not> password_ok (env_or (env_ADMIN_PASSWORD cfg) []) adminPassword"
  shows "\<exists>e. borrow cfg today s personId poolTypeS amt adminOverride adminPassword = Inl e"
  using assms by (auto simp: borrow_def split: option.splits)

lemma handle_one_open:
  assumes "ids_ok s" and "one_open s" and "\<not> valid_override_borrow cfg req"
  shows "one_open (handle cfg s req)"
proof (cases req)
  case (Borrow today personId poolType amt adminOverride adminPassword)
  show ?thesis
  proof (cases adminOverride)
    case True
    with assms(3) Borrow
    have "\<not> password_ok (env_or (env_ADMIN_PASSWORD cfg) []) adminPassword"
      by simp
    from borrow_bad_credential [OF True this, of today s personId poolType amt]
    obtain e where "borrow cfg today s personId poolType amt adminOverride adminPassword = Inl e"
      by blast
    with assms(2) show ?thesis
      unfolding Borrow by simp
  next
    case False
    with assms(2) show ?thesis
      unfolding Borrow
      by (cases "borrow cfg today s personId poolType amt adminOverride adminPassword")
        (auto dest: one_open_borrow)
  qed
next
  case (Repay now personId borrowingId amt)
  from assms(1,2) show ?thesis
    unfolding Repay
    by (cases "repay now s personId borrowingId amt") (auto dest: one_open_repay)
next
  case (PayFull now personId poolType)
  from assms(1,2) show ?thesis
    unfolding PayFull
    by (cases "payFull now s personId poolType") (auto dest: one_open_payFull)
next
  case (RunPenalties now)
  from assms(2) show ?thesis
    unfolding RunPenalties by (simp add: runPenalties_def one_open_def)
next
  case (RunPenaltiesStandalone now)
  from assms(2) show ?thesis
    unfolding RunPenaltiesStandalone by (simp add: runPenalties_standalone_def one_open_def)
next
  case (Save today personId units payValidity effectiveDate)
  from assms(2) show ?thesis
    unfolding Save
    by (cases "saveUnitsAndValidity cfg today s personId units payValidity effectiveDate")
      (auto dest!: save_Inr_shape simp: one_open_def)
next
  case (RetroactiveFill today personId date addUnits payValidityIfMissing)
  from assms(2) show ?thesis
    unfolding RetroactiveFill
    by (cases "retroactiveFill cfg today s personId date addUnits payValidityIfMissing")
      (auto dest!: retro_Inr_shape simp: one_open_def)
next
  case (CreateMember name adminPassword)
  from assms(2) show ?thesis
    unfolding CreateMember
    by (cases "createMember cfg s name adminPassword")
      (auto dest!: createMember_InrD simp: one_open_def)
next
  case (DeleteMember person_id password)
  from assms(2) show ?thesis
    unfolding DeleteMember
    by (cases "deleteMember cfg s person_id password")
      (auto dest!: deleteMember_InrD simp: one_open_def open_keys_filter)
next
  case (ResetAll password)
  from assms(2) show ?thesis
    unfolding ResetAll
    by (cases "resetAll cfg s password")
      (auto dest!: resetAll_InrD simp: one_open_def open_keys_def)
qed

lemma units_capped_cong:
  "daily_summary s' = daily_summary s \<Longrightarrow> units_capped s \<Longrightarrow> units_capped s'"
  by (simp add: units_capped_def)

lemma units_capped_save:
  assumes "units_capped s"
    and "saveUnitsAndValidity cfg today s personId units payValidity effectiveDate = Inr (s', r)"
  shows "units_capped s'"
  unfolding units_capped_def
proof (intro allI impI)
  fix k d
  assume k: "daily_summary s' k = Some d"
  note facts = save_Inr_daily [OF assms(2) refl]
  show "units_count d \<le> 4"
  proof (cases "k = (personId, save_date today effectiveDate)")
    case True
    with facts(2) k show ?thesis by (simp add: units_on_def)
  next
    case False
    with facts(4) have "daily_summary s' k = daily_summary s k" by blast
    with k have "daily_summary s k = Some d" by simp
    with assms(1) show ?thesis unfolding units_capped_def by blast
  qed
qed

lemma units_capped_retro:
  assumes "units_capped s"
    and "retroactiveFill cfg today s personId dateO addUnits payValidityIfMissing = Inr (s', r)"
  shows "units_capped s'"
  unfolding units_capped_def
proof (intro allI impI)
  fix k d
  assume k: "daily_summary s' k = Some d"
  from retro_Inr_shape [OF assms(2)] obtain date where
    cap: "units_on s' personId date \<le> 4"
    and other: "\<forall>k. k \<noteq> (personId, date) \<longrightarrow> daily_summary s' k = daily_summary s k"
    by blast
  show "units_count d \<le> 4"
  proof (cases "k = (personId, date)")
    case True
    with cap k show ?thesis by (simp add: units_on_def)
  next
    case False
    with other have "daily_summary s' k = daily_summary s k" by blast
    with k have "daily_summary s k = Some d" by simp
    with assms(1) show ?thesis unfolding units_capped_def by blast
  qed
qed

lemma handle_units_capped:
  assumes "units_capped s"
  shows "units_capped (handle cfg s req)"
proof (cases req)
  case (Borrow today personId poolType amt adminOverride adminPassword)
  from assms show ?thesis
    unfolding Borrow
    by (cases "borrow cfg today s personId poolType amt adminOverride adminPassword")
      (auto dest!: borrow_InrD intro: units_capped_cong)
next
  case (Repay now personId borrowingId amt)
  from assms show ?thesis
    unfolding Repay
    by (cases "repay now s personId borrowingId amt")
      (auto dest!: repay_InrD intro: units_capped_cong)
next
  case (PayFull now personId poolType)
  from assms show ?thesis
    unfolding PayFull
    by (cases "payFull now s personId poolType")
      (auto dest!: payFull_InrD intro: units_capped_cong)
next
  case (RunPenalties now)
  from assms show ?thesis
    unfolding RunPenalties by (simp add: runPenalties_def units_capped_def)
next
  case (RunPenaltiesStandalone now)
  from assms show ?thesis
    unfolding RunPenaltiesStandalone by (simp add: runPenalties_standalone_def units_capped_def)
next
  case (Save today personId units payValidity effectiveDate)
  from assms show ?thesis
    unfolding Save
    by (cases "saveUnitsAndValidity cfg today s personId units payValidity effectiveDate")
      (auto dest: units_capped_save)
next
  case (RetroactiveFill today personId date addUnits payValidityIfMissing)
  from assms show ?thesis
    unfolding RetroactiveFill
    by (cases "retroactiveFill cfg today s personId date addUnits payValidityIfMissing")
      (auto dest: units_capped_retro)
next
  case (CreateMember name adminPassword)
  from assms show ?thesis
    unfolding CreateMember
    by (cases "createMember cfg s name adminPassword")
      (auto dest!: createMember_InrD intro: units_capped_cong)
next
  case (DeleteMember person_id password)
  from assms show ?thesis
    unfolding DeleteMember
    by (cases "deleteMember cfg s person_id password")
      (auto dest!: deleteMember_InrD simp: units_capped_def split: if_splits)
next
  case (ResetAll password)
  from assms show ?thesis
    unfolding ResetAll
    by (cases "resetAll cfg s password")
      (auto dest!: resetAll_InrD simp: units_capped_def)
qed

lemma run_Cons [simp]: "run cfg s (req # reqs) = run cfg (handle cfg s req) reqs"
  by (simp add: run_def)

lemma run_Nil [simp]: "run cfg s [] = s"
  by (simp add: run_def)

lemma run_ids_ok: "ids_ok s \<Longrightarrow> ids_ok (run cfg s reqs)"
  by (induction reqs arbitrary: s) (simp_all add: handle_ids_ok)

lemma run_units_capped: "units_capped s \<Longrightarrow> units_capped (run cfg s reqs)"
  by (induction reqs arbitrary: s) (simp_all add: handle_units_capped)

lemma run_one_open:
  "ids_ok s \<Longrightarrow> one_open s \<Longrightarrow>
   list_all (\<lambda>r. \<not> valid_override_borrow cfg r) reqs \<Longrightarrow> one_open (run cfg s reqs)"
  by (induction reqs arbitrary: s) (simp_all add: handle_ids_ok handle_one_open)

lemma init_state_invariants: "ids_ok init_state" "one_open init_state" "units_capped init_state"
  by (simp_all add: init_state_def ids_ok_def one_open_def open_keys_def units_capped_def)

section \<open>At most one OPEN borrowing per person and pool\<close>

text \<open>
  Counterexample to claim C2 as stated. The state before has one OPEN VALIDITY borrowing
  of member 1 and satisfies the invariant; a further borrow from VALIDITY with the admin
  override and the right password succeeds, because the open-debt check sits under
  \<open>if (!isAdminOverride)\<close>, and the member then has two OPEN VALIDITY borrowings.
\<close>

theorem override_breaks_one_open:
  "one_open override_state_before \<and>
   \<not> one_open (handle cfg_example override_state_before
                 (Borrow 100 1 ''VALIDITY'' 30 True (Some ''secret'')))"
  unfolding override_state_before_def by code_simp

text \<open>
  Claim C2, amended. From a state with unique borrowing ids and at most one OPEN borrowing
  per (person, pool), in particular from the initial state, every sequence of requests
  that contains no borrow with a valid admin override (borrow without override or with a
  refused password, repay, payFull, both penalty sweeps, save, retroactiveFill,
  createMember, deleteMember, resetAll) ends in a state with at most one OPEN borrowing
  per (person, pool).
\<close>

theorem one_open_preserved:
  assumes "ids_ok s" and "one_open s"
    and "list_all (\<lambda>r. \<not> valid_override_borrow cfg r) reqs"
  shows "one_open (run cfg s reqs)"
  using assms by (rule run_one_open)

theorem one_open_preserved_witness:
  "one_open (run cfg_example init_state ordinary_requests) \<and>
   open_keys (borrowing (run cfg_example init_state ordinary_requests)) =
     [(1, MAIN), (1, VALIDITY)] \<and>
   map b_status (borrowing (run cfg_example init_state ordinary_requests)) = [OPEN, PAID, OPEN]"
proof -
  have "list_all (\<lambda>r. \<not> valid_override_borrow cfg_example r) ordinary_requests"
    by (simp add: ordinary_requests_def cfg_example_def password_ok_def env_or_def)
  from one_open_preserved [OF init_state_invariants(1,2) this]
  have "one_open (run cfg_example init_state ordinary_requests)" .
  moreover have "open_keys (borrowing (run cfg_example init_state ordinary_requests)) =
     [(1, MAIN), (1, VALIDITY)]"
    unfolding ordinary_requests_def by code_simp
  moreover have
    "map b_status (borrowing (run cfg_example init_state ordinary_requests)) = [OPEN, PAID, OPEN]"
    unfolding ordinary_requests_def by code_simp
  ultimately show ?thesis by simp
qed

section \<open>The daily cap\<close>

lemma units_capped_units_on: "units_capped s \<Longrightarrow> units_on s personId date \<le> 4"
  by (simp add: units_capped_def units_on_def split: option.splits)

text \<open>
  Claim C8. Over any sequence of requests, and so over any sequence of save and
  retroactiveFill calls on one person and day, no daily summary ever holds more than 4
  units if none did at the start (none does in the initial state). A save of 0 to 4 units
  that would take the day's count past 4 fails with the daily-cap error of save, and a
  retroactiveFill of 0 to 4 units on a past day that would take a count of at most 4 past 4
  fails with the daily-cap error of retroactiveFill; in both cases the stored state, with
  every balance, pool and daily summary, is what it was.
\<close>

theorem daily_cap:
  "(units_capped s \<longrightarrow> units_capped (run cfg s reqs)) \<and>
   (0 \<le> units \<and> units \<le> 4 \<and>
    units_on s personId (save_date today effectiveDate) + units > 4 \<longrightarrow>
      saveUnitsAndValidity cfg today s personId units payValidity effectiveDate =
        Inl DAILY_CAP_EXCEEDED \<and>
      handle cfg s (Save today personId units payValidity effectiveDate) = s) \<and>
   (0 \<le> addUnits \<and> addUnits \<le> 4 \<and> date < retro_today \<and> units_on s personId date \<le> 4 \<and>
    units_on s personId date + addUnits > 4 \<longrightarrow>
      retroactiveFill cfg retro_today s personId (Some date) addUnits payValidityIfMissing =
        Inl UNITS_CAP_EXCEEDED \<and>
      handle cfg s (RetroactiveFill retro_today personId (Some date) addUnits payValidityIfMissing) = s)"
proof (intro conjI impI)
  assume "units_capped s"
  then show "units_capped (run cfg s reqs)" by (rule run_units_capped)
next
  assume a: "0 \<le> units \<and> units \<le> 4 \<and>
    units_on s personId (save_date today effectiveDate) + units > 4"
  then show "saveUnitsAndValidity cfg today s personId units payValidity effectiveDate =
        Inl DAILY_CAP_EXCEEDED"
    by (auto simp: saveUnitsAndValidity_def Let_def units_on_def save_date_def
        split: option.splits)
  then show "handle cfg s (Save today personId units payValidity effectiveDate) = s"
    by simp
next
  assume a: "0 \<le> addUnits \<and> addUnits \<le> 4 \<and> date < retro_today \<and> units_on s personId date \<le> 4 \<and>
    units_on s personId date + addUnits > 4"
  then show "retroactiveFill cfg retro_today s personId (Some date) addUnits payValidityIfMissing =
        Inl UNITS_CAP_EXCEEDED"
    by (auto simp: retroactiveFill_def Let_def units_on_def split: option.splits)
  then show
    "handle cfg s (RetroactiveFill retro_today personId (Some date) addUnits payValidityIfMissing) = s"
    by simp
qed

theorem daily_cap_witness:
  "units_on (run cfg_example init_state cap_requests) 1 100 = 4 \<and>
   units_capped (run cfg_example init_state cap_requests) \<and>
   saveUnitsAndValidity cfg_example 100 (run cfg_example init_state [Save 100 1 3 False None])
     1 2 False None = Inl DAILY_CAP_EXCEEDED \<and>
   handle cfg_example (run cfg_example init_state [Save 100 1 3 False None])
     (Save 100 1 2 False None) = run cfg_example init_state [Save 100 1 3 False None] \<and>
   retroactiveFill cfg_example 101 (run cfg_example init_state (take 3 cap_requests))
     1 (Some 100) 1 False = Inl UNITS_CAP_EXCEEDED"
proof -
  have u1: "units_on (run cfg_example init_state [Save 100 1 3 False None]) 1 100 = 3"
    by code_simp
  have u3: "units_on (run cfg_example init_state (take 3 cap_requests)) 1 100 = 4"
    unfolding cap_requests_def by code_simp
  have u4: "units_on (run cfg_example init_state cap_requests) 1 100 = 4"
    unfolding cap_requests_def by code_simp
  note a = daily_cap [of init_state cfg_example cap_requests]
  note b = daily_cap [of "run cfg_example init_state [Save 100 1 3 False None]"
      cfg_example "[]" 2 1 100 None False]
  note c = daily_cap [of "run cfg_example init_state (take 3 cap_requests)"
      cfg_example "[]" 0 1 0 None False 1 100 101 False]
  from a init_state_invariants(3) have "units_capped (run cfg_example init_state cap_requests)"
    by simp
  with u1 u3 u4 b c show ?thesis
    by (simp add: save_date_def)
qed

section \<open>The validity fee is charged once per day\<close>

lemma save_succeeds:
  assumes "0 \<le> units" and "units \<le> 4"
    and "units_on s personId (save_date today effectiveDate) + units \<le> 4"
  shows "\<exists>s' r. saveUnitsAndValidity cfg today s personId units payValidity effectiveDate =
           Inr (s', r)"
  using assms
  by (auto simp: saveUnitsAndValidity_def Let_def units_on_def save_date_def
      split: option.splits intro: prod.exhaust)

text \<open>
  Claim C9. Two successful saves with \<open>payValidity = true\<close> for the same person and date:
  the second applies a validity amount of 0 and leaves the personal validity balance, the
  VALIDITY pool and the VALIDITY payments of the day as the first left them; if the day's
  validity was unpaid before the first call, the first call charges \<open>VALIDITY_FEE\<close>, so
  the fee is charged exactly once over the two calls. And a save whose total applied
  amount is 0 appends nothing to the transaction log.
\<close>

theorem validity_once:
  "(saveUnitsAndValidity cfg today s personId first_units True effectiveDate = Inr (s_mid, r_first) \<and>
    saveUnitsAndValidity cfg second_today s_mid personId second_units True second_effectiveDate = Inr (s_end, r_second) \<and>
    save_date second_today second_effectiveDate = save_date today effectiveDate \<and>
    date = save_date today effectiveDate \<longrightarrow>
      appliedValidityAmount (r_applied r_second) = 0 \<and>
      validity_savings_balance (personBal s_end personId) =
        validity_savings_balance (personBal s_mid personId) \<and>
      group_pool s_end VALIDITY = group_pool s_mid VALIDITY \<and>
      validity_payments s_end personId date = validity_payments s_mid personId date \<and>
      (\<not> validity_paid_on s personId date \<longrightarrow>
         appliedValidityAmount (r_applied r_first) = VALIDITY_FEE cfg \<and>
         validity_savings_balance (personBal s_mid personId) =
           validity_savings_balance (personBal s personId) + VALIDITY_FEE cfg \<and>
         group_pool s_mid VALIDITY =
           map_option (\<lambda>g. g + VALIDITY_FEE cfg) (group_pool s VALIDITY) \<and>
         length (validity_payments s_end personId date) =
           Suc (length (validity_payments s personId date)))) \<and>
   (saveUnitsAndValidity cfg today s personId units payValidity effectiveDate = Inr (s', r) \<and>
    round2 (appliedUnitsAmount (r_applied r) + appliedValidityAmount (r_applied r)) = 0 \<longrightarrow>
      transaction_log s' = transaction_log s)"
proof (intro conjI impI)
  assume a: "saveUnitsAndValidity cfg today s personId first_units True effectiveDate = Inr (s_mid, r_first) \<and>
    saveUnitsAndValidity cfg second_today s_mid personId second_units True second_effectiveDate = Inr (s_end, r_second) \<and>
    save_date second_today second_effectiveDate = save_date today effectiveDate \<and>
    date = save_date today effectiveDate"
  then have first: "saveUnitsAndValidity cfg today s personId first_units True effectiveDate = Inr (s_mid, r_first)"
    and second: "saveUnitsAndValidity cfg second_today s_mid personId second_units True second_effectiveDate = Inr (s_end, r_second)"
    and d1: "date = save_date today effectiveDate"
    and d2: "date = save_date second_today second_effectiveDate"
    by simp_all
  from save_Inr_daily(3) [OF first d1] have paid: "validity_paid_on s_mid personId date"
    by simp
  note f = save_Inr_validity [OF first d1 refl]
  note g = save_Inr_validity [OF second d2 refl]
  from g(1) paid show "appliedValidityAmount (r_applied r_second) = 0" by simp
  from g(3) paid show "validity_savings_balance (personBal s_end personId) =
        validity_savings_balance (personBal s_mid personId)" by simp
  from g(2) paid show "group_pool s_end VALIDITY = group_pool s_mid VALIDITY" by simp
  from g(4) paid show "validity_payments s_end personId date = validity_payments s_mid personId date"
    by simp
  {
    assume np: "\<not> validity_paid_on s personId date"
    from f(1) np show "appliedValidityAmount (r_applied r_first) = VALIDITY_FEE cfg" by simp
    from f(3) np show "validity_savings_balance (personBal s_mid personId) =
           validity_savings_balance (personBal s personId) + VALIDITY_FEE cfg" by simp
    from f(2) np show "group_pool s_mid VALIDITY =
           map_option (\<lambda>g. g + VALIDITY_FEE cfg) (group_pool s VALIDITY)" by simp
    from f(4) g(4) paid np show "length (validity_payments s_end personId date) =
           Suc (length (validity_payments s personId date))" by simp
  }
next
  assume "saveUnitsAndValidity cfg today s personId units payValidity effectiveDate = Inr (s', r) \<and>
    round2 (appliedUnitsAmount (r_applied r) + appliedValidityAmount (r_applied r)) = 0"
  then show "transaction_log s' = transaction_log s"
    using save_Inr_log(3) [of cfg today s personId units payValidity effectiveDate s' r, OF _ refl]
    by simp
qed

theorem validity_once_witness:
  "\<exists>s1 r1 s2 r2.
     saveUnitsAndValidity cfg_example 100 init_state 1 1 True None = Inr (s1, r1) \<and>
     saveUnitsAndValidity cfg_example 100 s1 1 0 True None = Inr (s2, r2) \<and>
     appliedValidityAmount (r_applied r1) = 100 \<and>
     appliedValidityAmount (r_applied r2) = 0 \<and>
     group_pool s1 VALIDITY = Some 100 \<and> group_pool s2 VALIDITY = Some 100 \<and>
     validity_savings_balance (personBal s1 1) = 100 \<and>
     validity_savings_balance (personBal s2 1) = 100 \<and>
     length (validity_payments s2 1 100) = 1 \<and>
     transaction_log s2 = transaction_log s1"
proof -
  have u0: "units_on init_state 1 100 = 0" and np: "\<not> validity_paid_on init_state 1 100"
    and v0: "validity_payments init_state 1 100 = []"
    and g0: "group_pool init_state VALIDITY = Some 0"
    and b0: "validity_savings_balance (personBal init_state 1) = 0"
    by (simp_all add: init_state_def units_on_def validity_paid_on_def validity_payments_def
        personBal_def)
  from save_succeeds [of 1 init_state 1 100 None cfg_example True] u0 obtain s1 r1 where
    first: "saveUnitsAndValidity cfg_example 100 init_state 1 1 True None = Inr (s1, r1)"
    by (auto simp: save_date_def)
  from save_Inr_daily(1) [OF first refl] u0 have u1: "units_on s1 1 100 = 1"
    by (simp add: save_date_def)
  from save_succeeds [of 0 s1 1 100 None cfg_example True] u1 obtain s2 r2 where
    second: "saveUnitsAndValidity cfg_example 100 s1 1 0 True None = Inr (s2, r2)"
    by (auto simp: save_date_def)
  note once = validity_once [where cfg = cfg_example and today = 100 and s = init_state
      and personId = 1 and first_units = 1 and effectiveDate = None and s_mid = s1
      and r_first = r1 and second_today = 100 and second_units = 0
      and second_effectiveDate = None and s_end = s2 and r_second = r2 and date = 100,
      THEN conjunct1]
  note nolog = validity_once [where cfg = cfg_example and today = 100 and s = s1
      and personId = 1 and units = 0 and payValidity = True and effectiveDate = None
      and s' = s2 and r = r2, THEN conjunct2]
  have prem:
    "saveUnitsAndValidity cfg_example 100 init_state 1 1 True None = Inr (s1, r1) \<and>
     saveUnitsAndValidity cfg_example 100 s1 1 0 True None = Inr (s2, r2) \<and>
     save_date 100 None = save_date 100 None \<and> 100 = save_date 100 None"
    using first second by (simp add: save_date_def)
  from once [THEN mp, OF prem] np have raw:
    "appliedValidityAmount (r_applied r1) = VALIDITY_FEE cfg_example"
    "appliedValidityAmount (r_applied r2) = 0"
    "group_pool s1 VALIDITY =
       map_option (\<lambda>g. g + VALIDITY_FEE cfg_example) (group_pool init_state VALIDITY)"
    "group_pool s2 VALIDITY = group_pool s1 VALIDITY"
    "validity_savings_balance (personBal s1 1) =
       validity_savings_balance (personBal init_state 1) + VALIDITY_FEE cfg_example"
    "validity_savings_balance (personBal s2 1) = validity_savings_balance (personBal s1 1)"
    "length (validity_payments s2 1 100) = Suc (length (validity_payments init_state 1 100))"
    by blast+
  have fee: "VALIDITY_FEE cfg_example = 100"
    by (simp add: cfg_example_def)
  from raw v0 g0 b0 fee have a:
    "appliedValidityAmount (r_applied r1) = 100"
    "appliedValidityAmount (r_applied r2) = 0"
    "group_pool s1 VALIDITY = Some 100" "group_pool s2 VALIDITY = Some 100"
    "validity_savings_balance (personBal s1 1) = 100"
    "validity_savings_balance (personBal s2 1) = 100"
    "length (validity_payments s2 1 100) = 1"
    by simp_all
  from save_Inr_log(2) [OF second refl] have "appliedUnitsAmount (r_applied r2) = 0"
    by simp
  with nolog second a(2) have "transaction_log s2 = transaction_log s1"
    by simp
  with a first second show ?thesis
    by (intro exI [of _ s1] exI [of _ r1] exI [of _ s2] exI [of _ r2]) simp
qed


section \<open>The penalty sweeps\<close>

text \<open>
  The first sweep computes what the specification states, for every borrowing whose
  \<open>last_penalty_applied_at\<close>, when set, is not before its due date (a sweep only sets it
  on an overdue borrowing).
\<close>

lemma penalty_standalone_meets_spec:
  assumes "case b_last_penalty_applied_at b of
             None \<Rightarrow> True | Some t \<Rightarrow> b_due_date b * msPerDay \<le> t"
  shows "penalty_standalone now b = penalty_spec now b"
  using assms
  by (cases "b_pool_type b")
    (auto simp: penalty_standalone_def penalty_spec_def Let_def max_def split: option.splits)

text \<open>
  On a server in UTC the two sweeps agree on a MAIN borrowing with exactly one full period:
  one period is rounded once either way.
\<close>

lemma penalty_admin_single_period:
  assumes "tz_offset_ms cfg = 0" and "b_pool_type b = MAIN"
    and "penalty_standalone now b = Some (1, x)"
  shows "penalty_admin cfg now b = Some (1, x)"
proof -
  from assms(3) have "now > b_due_date b * msPerDay"
    by (auto simp: penalty_standalone_def Let_def split: if_splits)
  with assms show ?thesis
    by (auto simp: penalty_standalone_def penalty_admin_def Let_def PENALTY_PCT_def
        split: if_splits)
qed

text \<open>
  Claim C1, at a failing input. The sweep that the route \<open>POST /admin/penalties/run\<close>
  runs (adminController's) is applied 1 ms after midnight UTC of day 107 to the state of
  \<open>penalty_requests\<close>, on a server in UTC. The MAIN borrowing (110.31 outstanding, due on
  day 47) has 2 full periods: the claim gives \<open>round2 (110.31 * 1.21) = 133.48\<close>, the code
  rounds after each period and stores 133.47. The VALIDITY borrowing (110.00 outstanding,
  due on day 100) is 7 days overdue: the claim gives 1 full period of 7 days and 121.00,
  the code divides by 30, finds no period and leaves 110.00.
\<close>

theorem runPenalties_admin_diverges:
  "map b_pool_type (borrowing penalty_example_state) = [MAIN, VALIDITY] \<and>
   map b_status (borrowing penalty_example_state) = [OPEN, OPEN] \<and>
   map b_due_date (borrowing penalty_example_state) = [47, 100] \<and>
   map b_outstanding_amount (borrowing penalty_example_state) = [11031 / 100, 110] \<and>
   map (penalty_spec (107 * msPerDay + 1)) (borrowing penalty_example_state) =
     [Some (2, 13348 / 100), Some (1, 121)] \<and>
   map (penalty_admin cfg_example (107 * msPerDay + 1)) (borrowing penalty_example_state) =
     [Some (2, 13347 / 100), None] \<and>
   map b_outstanding_amount
     (borrowing (runPenalties cfg_example (107 * msPerDay + 1) penalty_example_state)) =
     [13347 / 100, 110]"
  unfolding penalty_example_state_def penalty_requests_def by code_simp

text \<open>
  Claim C3, at a failing input. Both sweeps are applied to the same state at the same
  instant (1 ms after midnight UTC of day 114, server in UTC), so the clock and the time
  zone play no part. The first sweep stores 133.48 for the MAIN borrowing and 133.10 for
  the VALIDITY borrowing (2 periods of 7 days); adminController's sweep stores 133.47
  (rounded after each period) and leaves the VALIDITY borrowing at 110.00 (no period of 30
  days).
\<close>

theorem penalty_sweeps_disagree:
  "map b_outstanding_amount
     (borrowing (runPenalties_standalone (114 * msPerDay + 1) penalty_example_state)) =
     [13348 / 100, 13310 / 100] \<and>
   map b_outstanding_amount
     (borrowing (runPenalties cfg_example (114 * msPerDay + 1) penalty_example_state)) =
     [13347 / 100, 110] \<and>
   map (penalty_standalone (114 * msPerDay + 1)) (borrowing penalty_example_state) =
     [Some (2, 13348 / 100), Some (2, 13310 / 100)] \<and>
   map (penalty_admin cfg_example (114 * msPerDay + 1)) (borrowing penalty_example_state) =
     [Some (2, 13347 / 100), None]"
  unfolding penalty_example_state_def penalty_requests_def by code_simp


end
